theory Spec2Isabelle
  imports Complex_Main
begin

section \<open>Errors\<close>

text \<open>
  The exceptions the core raises, as values. \<open>ValueError\<close> is the invalid-argument
  error, \<open>IndexError\<close> the out-of-range error of a list, \<open>AppError\<close> the recoverable
  application error (safe message, internal diagnostic), \<open>RuntimeError\<close> what the OCR
  aggregator raises for an engine fault.
\<close>

datatype error =
    ValueError string
  | IndexError
  | AppError string string
  | RuntimeError string

section \<open>Python floats\<close>

text \<open>
  A Python float is an IEEE 754 double. A finite double is modelled as the real number it
  denotes, and every arithmetic operation as the exact operation followed by rounding to
  the nearest double, ties to the even significand: \<open>bexp a\<close> is the binary exponent
  of \<open>a > 0\<close> (the \<open>k\<close> with \<open>2^k \<le> a < 2^(k+1)\<close>), \<open>quantum a\<close> the spacing of the
  doubles there (53 significant bits, not finer than \<open>2^-1074\<close>). Comparisons of floats
  are exact. Infinities and NaN, and so results beyond the largest finite double, are
  not modelled.
\<close>

fun bit_length :: "nat \<Rightarrow> nat" where
  "bit_length n = (if n = 0 then 0 else Suc (bit_length (n div 2)))"

declare bit_length.simps [simp del]

definition bexp :: "real \<Rightarrow> int" where
  "bexp a = (if 1 \<le> a then int (bit_length (nat \<lfloor>a\<rfloor>)) - 1
             else - int (bit_length (nat (\<lceil>1 / a\<rceil> - 1))))"

definition pow2 :: "int \<Rightarrow> real" where
  "pow2 q = (if 0 \<le> q then 2 ^ nat q else 1 / 2 ^ nat (- q))"

definition round_half_even :: "real \<Rightarrow> int" where
  "round_half_even m =
     (if m - of_int \<lfloor>m\<rfloor> < 1 / 2 then \<lfloor>m\<rfloor>
      else if 1 / 2 < m - of_int \<lfloor>m\<rfloor> then \<lfloor>m\<rfloor> + 1
      else if even \<lfloor>m\<rfloor> then \<lfloor>m\<rfloor> else \<lfloor>m\<rfloor> + 1)"

definition quantum :: "real \<Rightarrow> real" where
  "quantum a = pow2 (max (bexp a - 52) (- 1074))"

definition round_pos :: "real \<Rightarrow> real" where
  "round_pos a = of_int (round_half_even (a / quantum a)) * quantum a"

definition round_double :: "real \<Rightarrow> real" where
  "round_double x = (if x = 0 then 0 else if 0 < x then round_pos x else - round_pos (- x))"

definition fadd :: "real \<Rightarrow> real \<Rightarrow> real" where
  "fadd x y = round_double (x + y)"

definition fsub :: "real \<Rightarrow> real \<Rightarrow> real" where
  "fsub x y = round_double (x - y)"

definition fmul :: "real \<Rightarrow> real \<Rightarrow> real" where
  "fmul x y = round_double (x * y)"

definition fdiv :: "real \<Rightarrow> real \<Rightarrow> real" where
  "fdiv x y = round_double (x / y)"

text \<open>
  \<open>sum(xs)\<close> for a list of floats: the additions run from the left, each one rounded
  (the built-in up to CPython 3.11; later versions carry a correction term along, which
  is left out here). The start value is the integer 0, and \<open>0 + x\<close> is \<open>x\<close>.
\<close>

definition py_sum :: "real list \<Rightarrow> real" where
  "py_sum xs = (case xs of [] \<Rightarrow> 0 | x # rest \<Rightarrow> foldl fadd x rest)"

section \<open>ROI and the ROI store (ocr\_processor.py, config\_manager.py)\<close>

text \<open>
  \<open>ROI\<close> of config\_manager.py: four integer attributes. The attributes of a Python
  object stay assignable after construction, so a ROI value is any four integers; the
  constructor's check is \<open>ROI_init\<close>.
\<close>

record ROI =
  roi_x :: int
  roi_y :: int
  roi_width :: int
  roi_height :: int

definition ROI_init :: "int \<Rightarrow> int \<Rightarrow> int \<Rightarrow> int \<Rightarrow> error + ROI" where
  "ROI_init x y w h =
     (if w \<le> 0 \<or> h \<le> 0 then Inl (ValueError ''ROI width and height must be positive integers.'')
      else Inr \<lparr>roi_x = x, roi_y = y, roi_width = w, roi_height = h\<rparr>)"

text \<open>
  The store keeps its ROIs in a Python list object and hands out lists, so list objects
  and ROI objects live in an explicit heap: a reference is a number, \<open>roi_objs\<close> gives
  the attributes of the ROI object at a reference and \<open>list_objs\<close> the content (ROI
  references) of the list object at a reference. Allocation takes the next unused
  reference.
\<close>

type_synonym ref = nat

record heap =
  roi_objs :: "ref \<Rightarrow> ROI"
  next_roi :: ref
  list_objs :: "ref \<Rightarrow> ref list"
  next_list :: ref

definition new_roi :: "heap \<Rightarrow> ROI \<Rightarrow> ref \<times> heap" where
  "new_roi h r = (next_roi h, h\<lparr>roi_objs := (roi_objs h)(next_roi h := r), next_roi := Suc (next_roi h)\<rparr>)"

definition new_list :: "heap \<Rightarrow> ref list \<Rightarrow> ref \<times> heap" where
  "new_list h xs = (next_list h, h\<lparr>list_objs := (list_objs h)(next_list h := xs), next_list := Suc (next_list h)\<rparr>)"

text \<open>Any in-place change of one list object: its content is replaced by \<open>f\<close> of it.\<close>

definition mutate_list :: "heap \<Rightarrow> ref \<Rightarrow> (ref list \<Rightarrow> ref list) \<Rightarrow> heap" where
  "mutate_list h l f = h\<lparr>list_objs := (list_objs h)(l := f (list_objs h l))\<rparr>"

text \<open>Any assignment to the attributes of one ROI object.\<close>

definition mutate_roi :: "heap \<Rightarrow> ref \<Rightarrow> (ROI \<Rightarrow> ROI) \<Rightarrow> heap" where
  "mutate_roi h a f = h\<lparr>roi_objs := (roi_objs h)(a := f (roi_objs h a))\<rparr>"

text \<open>
  \<open>del xs[index]\<close> of Python: a negative index counts from the end, and an index
  outside \<open>-n .. n-1\<close> raises IndexError.
\<close>

definition py_del :: "'a list \<Rightarrow> int \<Rightarrow> error + 'a list" where
  "py_del xs index =
     (let n = int (length xs);
          j = (if index < 0 then index + n else index)
      in if j < 0 \<or> n \<le> j then Inl IndexError
         else Inr (take (nat j) xs @ drop (Suc (nat j)) xs))"

text \<open>\<open>ROIManager\<close>: the one attribute \<open>self.rois\<close>, a reference to a list object.\<close>

record ROIManager =
  self_rois :: ref

text \<open>
  \<open>ROIManager.__init__\<close>: a non-empty initial list is copied ROI by ROI through the
  ROI constructor (which may raise); \<open>None\<close> or an empty list gives an empty store.
\<close>

fun copy_rois :: "heap \<Rightarrow> ref list \<Rightarrow> error + (ref list \<times> heap)" where
  "copy_rois h [] = Inr ([], h)"
| "copy_rois h (a # as) =
     (let r = roi_objs h a in
      case ROI_init (roi_x r) (roi_y r) (roi_width r) (roi_height r) of
        Inl e \<Rightarrow> Inl e
      | Inr r' \<Rightarrow>
          (case new_roi h r' of (a', h') \<Rightarrow>
             (case copy_rois h' as of
                Inl e \<Rightarrow> Inl e
              | Inr (as', h'') \<Rightarrow> Inr (a' # as', h''))))"

definition ROIManager_init :: "heap \<Rightarrow> ref option \<Rightarrow> error + (ROIManager \<times> heap)" where
  "ROIManager_init h initial_rois =
     (case initial_rois of
        None \<Rightarrow> (case new_list h [] of (l, h') \<Rightarrow> Inr (\<lparr>self_rois = l\<rparr>, h'))
      | Some i \<Rightarrow>
          if list_objs h i = [] then (case new_list h [] of (l, h') \<Rightarrow> Inr (\<lparr>self_rois = l\<rparr>, h'))
          else (case copy_rois h (list_objs h i) of
                  Inl e \<Rightarrow> Inl e
                | Inr (as, h') \<Rightarrow> (case new_list h' as of (l, h'') \<Rightarrow> Inr (\<lparr>self_rois = l\<rparr>, h''))))"

text \<open>
  \<open>add_roi\<close>: the width/height check, the x/y check, the width/height check again, then
  \<open>self.rois.append(roi)\<close>. The result is the error, if any, and the heap afterwards.
\<close>

definition add_roi :: "heap \<Rightarrow> ROIManager \<Rightarrow> ref \<Rightarrow> error option \<times> heap" where
  "add_roi h self roi =
     (let r = roi_objs h roi in
      if roi_width r \<le> 0 \<or> roi_height r \<le> 0
        then (Some (ValueError ''ROI width and height must be positive integers.''), h)
      else if roi_x r < 0 \<or> roi_y r < 0
        then (Some (ValueError ''ROI x and y must be non-negative integers.''), h)
      else if roi_width r \<le> 0 \<or> roi_height r \<le> 0
        then (Some (ValueError ''ROI width and height must be positive integers.''), h)
      else (None, mutate_list h (self_rois self) (\<lambda>xs. xs @ [roi])))"

text \<open>\<open>remove_roi\<close>: \<open>del self.rois[index]\<close>.\<close>

definition remove_roi :: "heap \<Rightarrow> ROIManager \<Rightarrow> int \<Rightarrow> error option \<times> heap" where
  "remove_roi h self index =
     (case py_del (list_objs h (self_rois self)) index of
        Inl e \<Rightarrow> (Some e, h)
      | Inr xs \<Rightarrow> (None, mutate_list h (self_rois self) (\<lambda>_. xs)))"

text \<open>\<open>list_rois\<close>: \<open>self.rois.copy()\<close>, a new list object with the same elements.\<close>

definition list_rois :: "heap \<Rightarrow> ROIManager \<Rightarrow> ref \<times> heap" where
  "list_rois h self = new_list h (list_objs h (self_rois self))"

text \<open>What a caller sees in a list of ROIs: the attributes of each element, in order.\<close>

definition view_list :: "heap \<Rightarrow> ref \<Rightarrow> ROI list" where
  "view_list h l = map (roi_objs h) (list_objs h l)"

section \<open>Clips and the clip timeline (video\_processor.py)\<close>

text \<open>
  Times are Python floats, each modelled as the real number it denotes. The timeline
  only compares them and takes \<open>min\<close>, \<open>max\<close> and a sorted copy, all of which are
  exact; the frame sampler computes with them, in the arithmetic of doubles.
\<close>

record Video =
  v_video_id :: "int option"
  v_source_type :: string
  v_source_path :: string
  v_original_url :: "string option"
  v_duration :: real
  v_resolution :: "int \<times> int"
  v_import_timestamp :: string

text \<open>\<open>Clip.__init__\<close> leaves \<open>clip_id\<close> at \<open>None\<close>: the identity is unassigned.\<close>

record Clip =
  clip_id :: "int option"
  video_id :: "int option"
  start_time :: real
  end_time :: real
  file_path :: "string option"

definition Clip_init :: "int option \<Rightarrow> real \<Rightarrow> real \<Rightarrow> string option \<Rightarrow> Clip" where
  "Clip_init vid st en fp =
     \<lparr>clip_id = None, video_id = vid, start_time = st, end_time = en, file_path = fp\<rparr>"

subsection \<open>The detector's report\<close>

text \<open>
  \<open>re.finditer(r"pts_time:(\d+\.\d+)", stderr)\<close> on a report of ASCII characters: at
  each position the literal, then one or more digits, a dot, one or more digits (both
  runs greedy; a shorter run of digits can never be followed by the dot or end the
  match earlier, so there is no backtracking). After a match the scan goes on behind
  it, otherwise one character further.
\<close>

definition is_digit :: "char \<Rightarrow> bool" where
  "is_digit c = (c \<in> set ''0123456789'')"

fun strip_prefix :: "string \<Rightarrow> string \<Rightarrow> string option" where
  "strip_prefix [] s = Some s"
| "strip_prefix (p # ps) [] = None"
| "strip_prefix (p # ps) (c # cs) = (if p = c then strip_prefix ps cs else None)"

definition match_pts :: "string \<Rightarrow> (string \<times> string \<times> string) option" where
  "match_pts s =
     (case strip_prefix ''pts_time:'' s of
        None \<Rightarrow> None
      | Some r \<Rightarrow>
          (let ip = takeWhile is_digit r; r1 = dropWhile is_digit r in
           if ip = [] then None
           else (case r1 of
                   [] \<Rightarrow> None
                 | d # r2 \<Rightarrow>
                     if d \<noteq> CHR ''.'' then None
                     else (let fp = takeWhile is_digit r2; r3 = dropWhile is_digit r2 in
                           if fp = [] then None else Some (ip, fp, r3)))))"

lemma strip_prefix_length:
  "strip_prefix p s = Some r \<Longrightarrow> length r + length p = length s"
  by (induction p s rule: strip_prefix.induct) (auto split: if_splits)

lemma match_pts_shorter:
  assumes "match_pts s = Some (ip, fp, r3)"
  shows "length r3 < length s"
proof -
  from assms obtain r where r: "strip_prefix ''pts_time:'' s = Some r"
    by (auto simp: match_pts_def split: option.splits)
  from assms r obtain d r2 where d: "dropWhile is_digit r = d # r2" and r3: "r3 = dropWhile is_digit r2"
    by (auto simp: match_pts_def Let_def split: list.splits if_splits)
  have "length r3 \<le> length r2"
    unfolding r3 by (rule length_dropWhile_le)
  moreover have "length (d # r2) \<le> length r"
    unfolding d [symmetric] by (rule length_dropWhile_le)
  moreover have "length r \<le> length s"
    using strip_prefix_length [OF r] by simp
  ultimately show ?thesis by simp
qed

function finditer_pts :: "string \<Rightarrow> (string \<times> string) list" where
  "finditer_pts [] = []"
| "finditer_pts (c # cs) =
     (case match_pts (c # cs) of
        Some (ip, fp, rest) \<Rightarrow> (ip, fp) # finditer_pts rest
      | None \<Rightarrow> finditer_pts cs)"
  by pat_completeness auto
termination
  by (relation "measure length") (auto dest: match_pts_shorter)

text \<open>\<open>float("12.50")\<close>: the decimal numeral's value.\<close>

definition digit_val :: "char \<Rightarrow> nat" where
  "digit_val c = of_char c - 48"

definition nat_of_digits :: "string \<Rightarrow> nat" where
  "nat_of_digits ds = foldl (\<lambda>n c. 10 * n + digit_val c) 0 ds"

definition float_of :: "string \<times> string \<Rightarrow> real" where
  "float_of m = (case m of (ip, fp) \<Rightarrow>
     real (nat_of_digits ip) + real (nat_of_digits fp) / 10 ^ length fp)"

subsection \<open>detect\_clips\<close>

text \<open>
  What \<open>subprocess.run(..., check=True)\<close> gives: the completed process's stderr, or
  \<open>CalledProcessError\<close> with its stderr. The detector is an oracle taking the
  variable parts of the command line, the media path and the threshold.
\<close>

datatype run_result = Completed string | CalledProcessError string

fun build_clips :: "int option \<Rightarrow> real \<Rightarrow> real list \<Rightarrow> Clip list \<Rightarrow> Clip list \<times> real" where
  "build_clips vid prev [] clips = (clips, prev)"
| "build_clips vid prev (t # ts) clips =
     build_clips vid t ts (clips @ [Clip_init vid prev t None])"

definition detect_clips :: "(string \<Rightarrow> real \<Rightarrow> run_result) \<Rightarrow> Video \<Rightarrow> real \<Rightarrow> error + Clip list" where
  "detect_clips ffmpeg video scene_threshold =
     (if \<not> (0 < scene_threshold \<and> scene_threshold < 1)
        then Inl (ValueError ''scene_threshold must be between 0.0 and 1.0'')
      else (case ffmpeg (v_source_path video) scene_threshold of
              CalledProcessError err \<Rightarrow> Inl (AppError ''Scene detection failed.'' err)
            | Completed err \<Rightarrow>
                (let pts_times = sort (map float_of (finditer_pts err)) in
                 case build_clips (v_video_id video) 0 pts_times [] of
                   (clips, prev) \<Rightarrow>
                     Inr (clips @ [Clip_init (v_video_id video) prev (v_duration video) None]))))"

subsection \<open>The working clip list\<close>

text \<open>
  \<open>merge_clips\<close> and \<open>split_clip\<close> change the caller's list in place and compare clips
  by object identity (\<open>list.remove\<close> on objects without \<open>__eq__\<close>), so the clips are
  objects in a heap and the working list is a list of references. Each operation
  returns its outcome together with the heap and the list as they are afterwards,
  also when it raises.
\<close>

record clip_heap =
  clip_objs :: "ref \<Rightarrow> Clip"
  next_clip :: ref

definition new_clip :: "clip_heap \<Rightarrow> Clip \<Rightarrow> ref \<times> clip_heap" where
  "new_clip h c = (next_clip h, h\<lparr>clip_objs := (clip_objs h)(next_clip h := c), next_clip := Suc (next_clip h)\<rparr>)"

text \<open>\<open>xs.remove(x)\<close>: the first occurrence goes; ValueError when there is none.\<close>

definition py_remove :: "'a list \<Rightarrow> 'a \<Rightarrow> error + 'a list" where
  "py_remove xs x =
     (if x \<in> set xs then Inr (remove1 x xs) else Inl (ValueError ''list.remove(x): x not in list''))"

fun remove_each :: "ref list \<Rightarrow> ref list \<Rightarrow> error option \<times> ref list" where
  "remove_each clips [] = (None, clips)"
| "remove_each clips (c # cs) =
     (case py_remove clips c of
        Inl e \<Rightarrow> (Some e, clips)
      | Inr clips' \<Rightarrow> remove_each clips' cs)"

text \<open>\<open>{clip.clip_id: clip for clip in clips}\<close>: a later clip overwrites an earlier one.\<close>

definition id_map_of :: "clip_heap \<Rightarrow> ref list \<Rightarrow> (int option \<rightharpoonup> ref)" where
  "id_map_of h clips = fold (\<lambda>a m. m(clip_id (clip_objs h a) \<mapsto> a)) clips Map.empty"

definition merge_clips :: "clip_heap \<Rightarrow> ref list \<Rightarrow> int list \<Rightarrow> (error + ref) \<times> clip_heap \<times> ref list" where
  "merge_clips h clips clip_ids_to_merge =
     (if clip_ids_to_merge = [] \<or> sort clip_ids_to_merge \<noteq> clip_ids_to_merge
        then (Inl (ValueError ''clip_ids_to_merge must be a sorted, non-empty list''), h, clips)
      else
        (let id_map = id_map_of h clips in
         if \<not> list_all (\<lambda>cid. id_map (Some cid) \<noteq> None) clip_ids_to_merge
           then (Inl (ValueError ''Some clip IDs not found''), h, clips)
         else
           (let selected = map (\<lambda>cid. the (id_map (Some cid))) clip_ids_to_merge;
                video_ids = set (map (\<lambda>a. video_id (clip_objs h a)) selected) in
            if card video_ids \<noteq> 1
              then (Inl (ValueError ''Clips must have the same video_id''), h, clips)
            else
              (let start = Min (set (map (\<lambda>a. start_time (clip_objs h a)) selected));
                   end = Max (set (map (\<lambda>a. end_time (clip_objs h a)) selected)) in
               case remove_each clips selected of
                 (Some e, clips') \<Rightarrow> (Inl e, h, clips')
               | (None, clips') \<Rightarrow>
                   (case new_clip h (Clip_init (video_id (clip_objs h (hd selected))) start end None) of
                      (merged, h') \<Rightarrow> (Inr merged, h', clips' @ [merged]))))))"

text \<open>\<open>str(n)\<close> for an integer, used by the f-strings.\<close>

fun str_nat :: "nat \<Rightarrow> string" where
  "str_nat n = (if n < 10 then [''0123456789'' ! n] else str_nat (n div 10) @ [''0123456789'' ! (n mod 10)])"

declare str_nat.simps [simp del]

definition str_int :: "int \<Rightarrow> string" where
  "str_int i = (if i < 0 then CHR ''-'' # str_nat (nat (- i)) else str_nat (nat i))"

definition split_clip :: "clip_heap \<Rightarrow> ref list \<Rightarrow> int \<Rightarrow> real \<Rightarrow> (error + ref \<times> ref) \<times> clip_heap \<times> ref list" where
  "split_clip h clips clip_id_to_split split_time =
     (case find (\<lambda>c. clip_id (clip_objs h c) = Some clip_id_to_split) clips of
        None \<Rightarrow> (Inl (ValueError (''Clip ID '' @ str_int clip_id_to_split @ '' not found'')), h, clips)
      | Some target \<Rightarrow>
          (let t = clip_objs h target in
           if \<not> (start_time t < split_time \<and> split_time < end_time t)
             then (Inl (ValueError ''split_time must be within the bounds of the clip''), h, clips)
           else
             (case py_remove clips target of
                Inl e \<Rightarrow> (Inl e, h, clips)
              | Inr clips' \<Rightarrow>
                  (case new_clip h (Clip_init (video_id t) (start_time t) split_time None) of
                     (new1, h1) \<Rightarrow>
                       (case new_clip h1 (Clip_init (video_id t) split_time (end_time t) None) of
                          (new2, h2) \<Rightarrow> (Inr (new1, new2), h2, clips' @ [new1, new2]))))))"

section \<open>The frame sampler (video\_processor.py)\<close>

record 'f FrameBatch =
  fb_clip_id :: int
  frames :: "'f list"
  timestamps :: "real list"

definition FrameBatch_init :: "int \<Rightarrow> 'f FrameBatch" where
  "FrameBatch_init cid = \<lparr>fb_clip_id = cid, frames = [], timestamps = []\<rparr>"

definition add_frame :: "'f FrameBatch \<Rightarrow> 'f \<Rightarrow> real \<Rightarrow> 'f FrameBatch" where
  "add_frame fb frame timestamp =
     fb\<lparr>frames := frames fb @ [frame], timestamps := timestamps fb @ [timestamp]\<rparr>"

text \<open>
  The world outside: \<open>tempfile.mkdtemp\<close>, the trim command (its variable parts: start,
  end, source path, output path), and the decoder \<open>cv2.VideoCapture\<close> with a state of
  its own (\<open>set\<close> moves it, \<open>read\<close> gives a frame or nothing and moves it). Every call
  made is recorded, in order.
\<close>

record ('d, 'f) env =
  env_mkdtemp :: string
  env_run_trim :: "real \<Rightarrow> real \<Rightarrow> string \<Rightarrow> string \<Rightarrow> run_result"
  env_VideoCapture :: "string \<Rightarrow> 'd"
  env_isOpened :: "'d \<Rightarrow> bool"
  env_set :: "'d \<Rightarrow> real \<Rightarrow> 'd"
  env_read :: "'d \<Rightarrow> 'f option \<times> 'd"

datatype ext_call =
    Mkdtemp
  | RunTrim real real string string
  | VideoCapture string
  | IsOpened
  | CapSet real
  | CapRead
  | CapRelease

text \<open>\<open>os.path.join(a, b)\<close> on POSIX, for two components.\<close>

definition path_join :: "string \<Rightarrow> string \<Rightarrow> string" where
  "path_join a b =
     (if b \<noteq> [] \<and> hd b = CHR ''/'' then b
      else if a = [] \<or> last a = CHR ''/'' then a @ b
      else a @ ''/'' @ b)"

text \<open>\<open>clip.clip_id or 'temp'\<close> inside the f-string: \<open>None\<close> and \<open>0\<close> are both falsy.\<close>

definition clip_file_name :: "Clip \<Rightarrow> string" where
  "clip_file_name clip =
     ''clip_'' @ (case clip_id clip of
                    None \<Rightarrow> ''temp''
                  | Some i \<Rightarrow> if i = 0 then ''temp'' else str_int i) @ ''.mp4''"

text \<open>\<open>clip.clip_id or -1\<close>.\<close>

definition batch_id :: "Clip \<Rightarrow> int" where
  "batch_id clip = (case clip_id clip of None \<Rightarrow> - 1 | Some i \<Rightarrow> if i = 0 then - 1 else i)"

text \<open>
  Lines 124 to 144: when the clip has no segment file yet, the segment is trimmed into
  the temporary directory and its path stored on the clip.
\<close>

definition materialize :: "('d, 'f) env \<Rightarrow> Clip \<Rightarrow> Video \<Rightarrow> string option \<Rightarrow> error option \<times> Clip \<times> ext_call list" where
  "materialize e clip video temp_dir =
     (case file_path clip of
        Some p \<Rightarrow> (None, clip, [])
      | None \<Rightarrow>
          (case (case temp_dir of None \<Rightarrow> (env_mkdtemp e, [Mkdtemp]) | Some d \<Rightarrow> (d, [])) of
             (dir, tr) \<Rightarrow>
               (let temp_clip_path = path_join dir (clip_file_name clip);
                    tr' = tr @ [RunTrim (start_time clip) (end_time clip) (v_source_path video) temp_clip_path] in
                case env_run_trim e (start_time clip) (end_time clip) (v_source_path video) temp_clip_path of
                  Completed out \<Rightarrow> (None, clip\<lparr>file_path := Some temp_clip_path\<rparr>, tr')
                | CalledProcessError err \<Rightarrow> (Some (AppError ''Failed to trim clip.'' err), clip, tr'))))"

text \<open>
  The sampling loop, in the arithmetic of doubles: \<open>current_time += frame_interval\<close>
  is a rounded addition, and so are the seek position and the timestamp. Nothing bounds
  the number of rounds (an addition can round back to the same offset), so the loop is a
  partial function: \<open>None\<close> is a loop that never ends.
\<close>

partial_function (option) sample_loop ::
  "('d, 'f) env \<Rightarrow> real \<Rightarrow> real \<Rightarrow> real \<Rightarrow> 'd \<Rightarrow> 'f FrameBatch \<Rightarrow> real \<Rightarrow> ext_call list
     \<Rightarrow> ('d \<times> 'f FrameBatch \<times> ext_call list) option" where
  "sample_loop e start frame_interval duration capture frame_batch current_time tr =
     (if current_time < duration then
        (case env_read e (env_set e capture (fmul current_time 1000)) of
           (None, capture') \<Rightarrow>
             Some (capture', frame_batch, tr @ [CapSet (fmul current_time 1000), CapRead])
         | (Some frame, capture') \<Rightarrow>
             sample_loop e start frame_interval duration capture'
               (add_frame frame_batch frame (fadd start current_time))
               (fadd current_time frame_interval)
               (tr @ [CapSet (fmul current_time 1000), CapRead]))
      else Some (capture, frame_batch, tr))"

definition extract_frames_for_clip ::
  "('d, 'f) env \<Rightarrow> Clip \<Rightarrow> Video \<Rightarrow> real \<Rightarrow> string option
     \<Rightarrow> ((error + 'f FrameBatch) \<times> Clip \<times> ext_call list) option" where
  "extract_frames_for_clip e clip video sampling_rate_fps temp_dir =
     (if sampling_rate_fps \<le> 0
        then Some (Inl (ValueError ''sampling_rate_fps must be greater than 0''), clip, [])
      else
        (case materialize e clip video temp_dir of
           (Some err, clip', tr) \<Rightarrow> Some (Inl err, clip', tr)
         | (None, clip', tr) \<Rightarrow>
             (let path = the (file_path clip');
                  capture = env_VideoCapture e path;
                  tr1 = tr @ [VideoCapture path, IsOpened] in
              if \<not> env_isOpened e capture
                then Some (Inl (AppError ''Cannot open clip file for frame extraction.'' path), clip', tr1)
              else
                (case sample_loop e (start_time clip') (fdiv 1 sampling_rate_fps)
                        (fsub (end_time clip') (start_time clip')) capture
                        (FrameBatch_init (batch_id clip')) 0 tr1 of
                   None \<Rightarrow> None
                 | Some (capture', frame_batch, tr2) \<Rightarrow>
                     Some (Inr frame_batch, clip', tr2 @ [CapRelease])))))"

section \<open>The OCR aggregator (ocr\_processor.py)\<close>

record OCRResult =
  r_video_id :: int
  r_clip_id :: int
  r_timestamp :: real
  r_text :: string
  r_confidence :: real
  r_roi :: ROI

definition OCRResult_init :: "int \<Rightarrow> int \<Rightarrow> real \<Rightarrow> string \<Rightarrow> real \<Rightarrow> ROI \<Rightarrow> error + OCRResult" where
  "OCRResult_init vid cid timestamp text confidence roi =
     (if text = [] then Inl (ValueError ''OCRResult text must be non-empty'')
      else if \<not> (0 \<le> confidence \<and> confidence \<le> 1)
        then Inl (ValueError ''OCRResult confidence must be between 0.0 and 1.0'')
      else Inr \<lparr>r_video_id = vid, r_clip_id = cid, r_timestamp = timestamp, r_text = text,
                r_confidence = confidence, r_roi = roi\<rparr>)"

text \<open>
  A frame is a decoded colour image: \<open>shape[0]\<close> rows, \<open>shape[1]\<close> columns, three
  channels, and its pixel data. \<open>frame[a:b, c:d]\<close> is a view of it; a slice bound is
  clipped to the axis as Python does (a negative bound counts from the end).
\<close>

record 'a frame =
  shape0 :: nat
  shape1 :: nat
  pixels :: 'a

record 'a sub_img =
  si_frame :: "'a frame"
  si_rows :: "nat \<times> nat"
  si_cols :: "nat \<times> nat"

definition slice_bound :: "nat \<Rightarrow> int \<Rightarrow> nat" where
  "slice_bound n v = (if v < 0 then nat (max (v + int n) 0) else min (nat v) n)"

definition crop :: "'a frame \<Rightarrow> int \<Rightarrow> int \<Rightarrow> int \<Rightarrow> int \<Rightarrow> 'a sub_img" where
  "crop fr a b c d =
     \<lparr>si_frame = fr,
      si_rows = (slice_bound (shape0 fr) a, slice_bound (shape0 fr) b),
      si_cols = (slice_bound (shape1 fr) c, slice_bound (shape1 fr) d)\<rparr>"

definition img_size :: "'a sub_img \<Rightarrow> nat" where
  "img_size s = (snd (si_rows s) - fst (si_rows s)) * (snd (si_cols s) - fst (si_cols s)) * 3"

text \<open>
  The recognition engine, applied to the grey conversion of a crop:
  \<open>TesseractNotFoundError\<close>, any other exception, or the dictionary's \<open>text\<close> and
  \<open>conf\<close> lists. An entry of \<open>conf\<close> is the number \<open>float(conf_str)\<close> gives, or
  \<open>None\<close> when that conversion raises.
\<close>

datatype engine_result =
    TesseractNotFoundError
  | EngineException string
  | Data "string list" "real option list"

text \<open>
  \<open>str.strip()\<close>. A character is a code point below 256; those Python counts as white
  space are 9 to 13, 28 to 32, 133 (U+0085) and 160 (U+00A0).
\<close>

definition is_space :: "char \<Rightarrow> bool" where
  "is_space c = (let n = (of_char c :: nat) in
     (9 \<le> n \<and> n \<le> 13) \<or> (28 \<le> n \<and> n \<le> 32) \<or> n = 133 \<or> n = 160)"

definition py_strip :: "string \<Rightarrow> string" where
  "py_strip s = rev (dropWhile is_space (rev (dropWhile is_space s)))"

text \<open>
  The loop over \<open>zip(texts, confs)\<close>, lines 123 to 130; \<open>float(conf_str) / 100.0\<close> is
  a rounded division.
\<close>

fun ocr_tokens :: "(string \<times> real option) list \<Rightarrow> real list \<Rightarrow> string list \<Rightarrow> real list \<times> string list" where
  "ocr_tokens [] numeric_confs tokens = (numeric_confs, tokens)"
| "ocr_tokens ((text, conf_str) # rest) numeric_confs tokens =
     (case conf_str of
        None \<Rightarrow> ocr_tokens rest numeric_confs tokens
      | Some c \<Rightarrow>
          (let conf_val = fdiv c 100 in
           ocr_tokens rest (numeric_confs @ [conf_val])
             (if conf_val > 0 \<and> py_strip text \<noteq> [] then tokens @ [text] else tokens)))"

text \<open>
  One round of the loop over the ROIs, lines 95 to 145: the error raised, or the result
  appended (if any), together with the images handed to the engine in this round.
\<close>

definition ocr_roi ::
  "('a sub_img \<Rightarrow> engine_result) \<Rightarrow> 'a frame \<Rightarrow> real \<Rightarrow> int \<Rightarrow> int \<Rightarrow> real \<Rightarrow> ROI
     \<Rightarrow> (error + OCRResult option) \<times> 'a sub_img list" where
  "ocr_roi engine fr timestamp vid cid confidence_threshold roi =
     (let x = roi_x roi; y = roi_y roi; w = roi_width roi; h = roi_height roi in
      if y < 0 \<or> x < 0 \<or> y + h > int (shape0 fr) \<or> x + w > int (shape1 fr) then (Inr None, [])
      else
        (let sub = crop fr y (y + h) x (x + w) in
         if img_size sub = 0 then (Inr None, [])
         else
           (case engine sub of
              TesseractNotFoundError \<Rightarrow> (Inl (RuntimeError ''Tesseract not installed or not in PATH.''), [sub])
            | EngineException msg \<Rightarrow> (Inl (RuntimeError ''Error during OCR processing.''), [sub])
            | Data texts confs \<Rightarrow>
                (case ocr_tokens (zip texts confs) [] [] of
                   (numeric_confs, tokens) \<Rightarrow>
                     (let text_str = py_strip (concat tokens);
                          overall_conf = (if numeric_confs \<noteq> []
                                          then fdiv (py_sum numeric_confs) (real (length numeric_confs))
                                          else 0) in
                      if text_str \<noteq> [] \<and> overall_conf \<ge> confidence_threshold then
                        (case OCRResult_init vid cid timestamp text_str overall_conf roi of
                           Inl err \<Rightarrow> (Inl err, [sub])
                         | Inr result \<Rightarrow> (Inr (Some result), [sub]))
                      else (Inr None, [sub]))))))"

fun ocr_rois ::
  "('a sub_img \<Rightarrow> engine_result) \<Rightarrow> 'a frame \<Rightarrow> real \<Rightarrow> int \<Rightarrow> int \<Rightarrow> real \<Rightarrow> ROI list
     \<Rightarrow> OCRResult list \<Rightarrow> 'a sub_img list \<Rightarrow> (error + OCRResult list) \<times> 'a sub_img list" where
  "ocr_rois engine fr timestamp vid cid thr [] results calls = (Inr results, calls)"
| "ocr_rois engine fr timestamp vid cid thr (roi # rest) results calls =
     (case ocr_roi engine fr timestamp vid cid thr roi of
        (Inl err, cs) \<Rightarrow> (Inl err, calls @ cs)
      | (Inr None, cs) \<Rightarrow> ocr_rois engine fr timestamp vid cid thr rest results (calls @ cs)
      | (Inr (Some result), cs) \<Rightarrow>
          ocr_rois engine fr timestamp vid cid thr rest (results @ [result]) (calls @ cs))"

definition process_frame_for_ocr ::
  "('a sub_img \<Rightarrow> engine_result) \<Rightarrow> 'a frame \<Rightarrow> real \<Rightarrow> int \<Rightarrow> int \<Rightarrow> ROI list \<Rightarrow> real
     \<Rightarrow> (error + OCRResult list) \<times> 'a sub_img list" where
  "process_frame_for_ocr engine fr timestamp vid cid rois confidence_threshold =
     (if \<not> (0 \<le> confidence_threshold \<and> confidence_threshold \<le> 1)
        then (Inl (ValueError ''confidence_threshold must be between 0.0 and 1.0''), [])
      else ocr_rois engine fr timestamp vid cid confidence_threshold rois [] [])"

fun batch_loop ::
  "('a sub_img \<Rightarrow> engine_result) \<Rightarrow> int \<Rightarrow> ROI list \<Rightarrow> real \<Rightarrow> ('a frame \<times> real) list
     \<Rightarrow> OCRResult list \<Rightarrow> 'a sub_img list \<Rightarrow> (error + OCRResult list) \<times> 'a sub_img list" where
  "batch_loop engine cid rois thr [] all_results calls = (Inr all_results, calls)"
| "batch_loop engine cid rois thr ((fr, ts) # rest) all_results calls =
     (case process_frame_for_ocr engine fr ts cid cid rois thr of
        (Inl err, cs) \<Rightarrow> (Inl err, calls @ cs)
      | (Inr partial, cs) \<Rightarrow> batch_loop engine cid rois thr rest (all_results @ partial) (calls @ cs))"

definition process_batch_for_ocr ::
  "('a sub_img \<Rightarrow> engine_result) \<Rightarrow> ('a frame) FrameBatch \<Rightarrow> ROI list \<Rightarrow> real
     \<Rightarrow> (error + OCRResult list) \<times> 'a sub_img list" where
  "process_batch_for_ocr engine frame_batch rois confidence_threshold =
     (if \<not> (0 \<le> confidence_threshold \<and> confidence_threshold \<le> 1)
        then (Inl (ValueError ''confidence_threshold must be between 0.0 and 1.0''), [])
      else batch_loop engine (fb_clip_id frame_batch) rois confidence_threshold
             (zip (frames frame_batch) (timestamps frame_batch)) [] [])"

section \<open>Notions used to state the properties\<close>

text \<open>A clip built from a pair of boundaries, as \<open>detect_clips\<close> builds it.\<close>

definition mk_clip :: "int option \<Rightarrow> real \<times> real \<Rightarrow> Clip" where
  "mk_clip vid p = Clip_init vid (fst p) (snd p) None"

text \<open>
  The sampling loop as it runs from the offset \<open>t\<close> on with interval \<open>iv\<close>:
  \<open>offset_at iv t i\<close> is the offset of round \<open>i\<close> (\<open>i\<close> rounded additions of the
  interval), \<open>cap_at \<dots> i\<close> the decoder's state before round \<open>i\<close> (each earlier
  round has sought to its offset and read once), \<open>read_at \<dots> i\<close> what the read of
  round \<open>i\<close> gives.
\<close>

primrec offset_at :: "real \<Rightarrow> real \<Rightarrow> nat \<Rightarrow> real" where
  "offset_at iv t 0 = t"
| "offset_at iv t (Suc i) = fadd (offset_at iv t i) iv"

primrec cap_at :: "('d, 'f) env \<Rightarrow> real \<Rightarrow> 'd \<Rightarrow> real \<Rightarrow> nat \<Rightarrow> 'd" where
  "cap_at e iv cap t 0 = cap"
| "cap_at e iv cap t (Suc i) =
     snd (env_read e (env_set e (cap_at e iv cap t i) (fmul (offset_at iv t i) 1000)))"

definition read_at :: "('d, 'f) env \<Rightarrow> real \<Rightarrow> 'd \<Rightarrow> real \<Rightarrow> nat \<Rightarrow> 'f option" where
  "read_at e iv cap t i = fst (env_read e (env_set e (cap_at e iv cap t i) (fmul (offset_at iv t i) 1000)))"

text \<open>
  The crop of a ROI, and when a ROI is recognised at all: it lies within the frame's
  bounds and its crop is not empty.
\<close>

definition roi_crop :: "'a frame \<Rightarrow> ROI \<Rightarrow> 'a sub_img" where
  "roi_crop fr roi =
     crop fr (roi_y roi) (roi_y roi + roi_height roi) (roi_x roi) (roi_x roi + roi_width roi)"

definition roi_usable :: "'a frame \<Rightarrow> ROI \<Rightarrow> bool" where
  "roi_usable fr roi =
     (0 \<le> roi_y roi \<and> 0 \<le> roi_x roi
      \<and> roi_y roi + roi_height roi \<le> int (shape0 fr)
      \<and> roi_x roi + roi_width roi \<le> int (shape1 fr)
      \<and> img_size (roi_crop fr roi) \<noteq> 0)"

text \<open>
  For the \<open>(token, raw confidence)\<close> pairs the engine returned: the normalised
  confidence is the raw one divided by 100, in doubles; the candidate text is the
  tokens with positive normalised confidence and non-blank text, concatenated in order
  without separator and trimmed; the overall confidence is the mean of all normalised
  confidences as doubles give it (their sum from the left, divided by their number), or
  0 when there are none. \<open>exact_mean\<close> is the mean of the raw confidences over 100
  without any rounding. \<open>engine_data\<close> is the engine's answer holding exactly these
  pairs.
\<close>

definition candidate_text :: "(string \<times> real) list \<Rightarrow> string" where
  "candidate_text ps =
     py_strip (concat (map fst (filter (\<lambda>p. 0 < fdiv (snd p) 100 \<and> py_strip (fst p) \<noteq> []) ps)))"

definition overall_confidence :: "(string \<times> real) list \<Rightarrow> real" where
  "overall_confidence ps =
     (if ps = [] then 0
      else fdiv (py_sum (map (\<lambda>p. fdiv (snd p) 100) ps)) (real (length ps)))"

definition exact_mean :: "(string \<times> real) list \<Rightarrow> real" where
  "exact_mean ps =
     (if ps = [] then 0 else sum_list (map (\<lambda>p. snd p / 100) ps) / real (length ps))"

definition engine_data :: "(string \<times> real) list \<Rightarrow> engine_result" where
  "engine_data ps = Data (map fst ps) (map (\<lambda>p. Some (snd p)) ps)"


section \<open>Example states\<close>

text \<open>
  A heap with three ROI objects (the third with a negative \<open>x\<close>) and a store whose
  list holds the first, the second and the first again.
\<close>

definition ex_heap :: heap where
  "ex_heap = \<lparr>roi_objs = (\<lambda>_. \<lparr>roi_x = 0, roi_y = 0, roi_width = 1, roi_height = 1\<rparr>)
                 (1 := \<lparr>roi_x = 5, roi_y = 5, roi_width = 10, roi_height = 10\<rparr>,
                  2 := \<lparr>roi_x = - 1, roi_y = 0, roi_width = 10, roi_height = 10\<rparr>),
               next_roi = 3,
               list_objs = (\<lambda>_. [])(0 := [0, 1, 0]),
               next_list = 1\<rparr>"

definition ex_mgr :: ROIManager where
  "ex_mgr = \<lparr>self_rois = 0\<rparr>"

text \<open>
  The video of the test suite (duration 10), a detector report with two boundaries
  given out of order, and a clip heap with the two clips of the merge test (ids 101
  and 102).
\<close>

definition ex_video :: Video where
  "ex_video = \<lparr>v_video_id = Some 1, v_source_type = ''file'', v_source_path = ''tests/assets/test_video.mp4'',
                v_original_url = None, v_duration = 10, v_resolution = (640, 480),
                v_import_timestamp = ''2024-01-01T00:00:00Z''\<rparr>"

definition ex_report :: string where
  "ex_report = ''frame:1 pts_time:4.5'' @ [CHR 0x0A] @ ''frame:0 pts_time:2.0'' @ [CHR 0x0A]"

definition ex_clips :: clip_heap where
  "ex_clips = \<lparr>clip_objs = (\<lambda>_. \<lparr>clip_id = None, video_id = Some 1, start_time = 0, end_time = 0, file_path = None\<rparr>)
                 (0 := \<lparr>clip_id = Some 101, video_id = Some 1, start_time = 0, end_time = 5, file_path = None\<rparr>,
                  1 := \<lparr>clip_id = Some 102, video_id = Some 1, start_time = 5, end_time = 10, file_path = None\<rparr>),
                next_clip = 2\<rparr>"

text \<open>
  A world for the sampler: a decoder that counts its reads and has \<open>n\<close> frames (frame
  \<open>d\<close> is the number \<open>d\<close>), a trim that succeeds, and a clip from 2 to 2.3 seconds
  with no segment file yet.
\<close>

definition ex_env :: "nat \<Rightarrow> (nat, nat) env" where
  "ex_env n = \<lparr>env_mkdtemp = ''/tmp/x'',
               env_run_trim = (\<lambda>s t src out. Completed []),
               env_VideoCapture = (\<lambda>p. 0),
               env_isOpened = (\<lambda>d. True),
               env_set = (\<lambda>d pos. d),
               env_read = (\<lambda>d. (if d < n then Some d else None, Suc d))\<rparr>"

definition ex_clip :: "int option \<Rightarrow> Clip" where
  "ex_clip i = \<lparr>clip_id = i, video_id = Some 1, start_time = 2, end_time = 2.3, file_path = None\<rparr>"

text \<open>A clip of video 1 with identity 7 whose segment file exists already.\<close>

definition ex_segment :: "real \<Rightarrow> real \<Rightarrow> Clip" where
  "ex_segment s t = \<lparr>clip_id = Some 7, video_id = Some 1, start_time = s, end_time = t,
                      file_path = Some ''clip_7.mp4''\<rparr>"

text \<open>
  A frame of 50 by 50 pixels, a ROI inside it, the engine's answer of the test suite
  (\<open>Hello\<close> at 85, \<open>World\<close> at 90), three tokens all at 70, and a batch of two such
  frames for clip 99.
\<close>

definition ex_frame :: "unit frame" where
  "ex_frame = \<lparr>shape0 = 50, shape1 = 50, pixels = ()\<rparr>"

definition ex_roi :: ROI where
  "ex_roi = \<lparr>roi_x = 0, roi_y = 0, roi_width = 20, roi_height = 20\<rparr>"

definition ex_tokens :: "(string \<times> real) list" where
  "ex_tokens = [(''Hello'', 85), (''World'', 90)]"


definition ex_batch :: "(unit frame) FrameBatch" where
  "ex_batch = \<lparr>fb_clip_id = 99, frames = [ex_frame, ex_frame], timestamps = [0.1, 0.2]\<rparr>"

section \<open>Verified properties\<close>

subsection \<open>Doubles\<close>

text \<open>
  Rules that evaluate an operation on given numbers (the \<open>if\<close> of \<open>bit_length\<close> is
  unfolded only where the argument is known not to be 0), and the model on values known
  from Python: \<open>0.1\<close>, \<open>0.1 + 0.2\<close>, \<open>-1/3\<close>, \<open>0.1 * 1000\<close>, and a tie that goes to
  the even significand.
\<close>

lemma bit_length_0: "bit_length 0 = 0"
  by (simp add: bit_length.simps)

lemma bit_length_pos: "n \<noteq> 0 \<Longrightarrow> bit_length n = Suc (bit_length (n div 2))"
  by (subst bit_length.simps) simp

lemmas float_eval = fadd_def fsub_def fmul_def fdiv_def round_double_def round_pos_def quantum_def
  bexp_def pow2_def round_half_even_def bit_length_0 bit_length_pos

lemma double_tenth: "fdiv 1 10 = 3602879701896397 / 36028797018963968"
  by (simp add: float_eval)

lemma double_three_tenths:
  "fadd (fdiv 1 10) (fdiv 2 10) = 1351079888211149 / 4503599627370496"
  by (simp add: float_eval)

lemma double_minus_third: "fdiv (- 1) 3 = - 6004799503160661 / 18014398509481984"
  by (simp add: float_eval)

lemma double_hundred: "fmul (fdiv 1 10) 1000 = 100"
  by (simp add: float_eval)

lemma double_tie_to_even:
  "fadd 18014398509481984 1 = 18014398509481984"
  "fadd 18014398509481984 2 = 18014398509481984"
  "fadd 18014398509481984 3 = 18014398509481988"
  "fadd 9007199254740992 1 = 9007199254740992"
  "fadd 9007199254740994 1 = 9007199254740996"
  by (simp_all add: float_eval)

lemma round_double_0: "round_double 0 = 0"
  by (simp add: round_double_def)

subsection \<open>ROI store: removal by index\<close>

text \<open>
  Claim C10. In a store holding \<open>n \<ge> 1\<close> ROIs, \<open>remove_roi\<close> with an index between
  \<open>-n\<close> and \<open>-1\<close> succeeds and removes the ROI at position \<open>n + index\<close>; the call raises
  the out-of-range error exactly when \<open>index \<ge> n\<close> or \<open>index < -n\<close>, and raises nothing
  else.
\<close>

theorem remove_roi_index:
  fixes h :: heap and self :: ROIManager and index :: int
  defines "xs \<equiv> list_objs h (self_rois self)"
  defines "n \<equiv> int (length xs)"
  shows "(1 \<le> n \<and> - n \<le> index \<and> index \<le> - 1 \<longrightarrow>
            fst (remove_roi h self index) = None
          \<and> list_objs (snd (remove_roi h self index)) (self_rois self)
              = take (nat (n + index)) xs @ drop (Suc (nat (n + index))) xs)
       \<and> ((fst (remove_roi h self index) = Some IndexError) = (index \<ge> n \<or> index < - n))
       \<and> (fst (remove_roi h self index) \<noteq> Some IndexError \<longrightarrow> fst (remove_roi h self index) = None)"
  unfolding xs_def n_def
  by (auto simp: remove_roi_def py_del_def Let_def mutate_list_def add.commute)

theorem remove_roi_index_witness:
  "fst (remove_roi ex_heap ex_mgr (- 1)) = None
   \<and> list_objs (snd (remove_roi ex_heap ex_mgr (- 1))) 0 = [0, 1]
   \<and> fst (remove_roi ex_heap ex_mgr (- 4)) = Some IndexError
   \<and> fst (remove_roi ex_heap ex_mgr 3) = Some IndexError"
  using remove_roi_index [of ex_heap ex_mgr "- 1"] remove_roi_index [of ex_heap ex_mgr "- 4"]
    remove_roi_index [of ex_heap ex_mgr 3]
  by (simp add: ex_heap_def ex_mgr_def)

subsection \<open>ROI store: adding and listing\<close>

text \<open>
  The list object of a store made by the constructor is allocated, and stays so under
  every operation of the store and every change of a list object.
\<close>

lemma copy_rois_lists:
  "copy_rois h as = Inr (bs, h') \<Longrightarrow> next_list h' = next_list h \<and> list_objs h' = list_objs h"
proof (induction as arbitrary: h bs h')
  case Nil
  then show ?case by simp
next
  case (Cons a as)
  then show ?case
    by (auto simp: Let_def new_roi_def split: sum.splits prod.splits)
qed

lemma ROIManager_init_allocated:
  "ROIManager_init h i = Inr (m, h') \<Longrightarrow> self_rois m < next_list h'"
  by (auto simp: ROIManager_init_def new_list_def split: option.splits if_splits sum.splits prod.splits)

lemma store_ops_keep_allocated:
  assumes "self_rois m < next_list h"
  shows "self_rois m < next_list (snd (add_roi h m a))"
    and "self_rois m < next_list (snd (remove_roi h m i))"
    and "self_rois m < next_list (snd (list_rois h m))"
    and "self_rois m < next_list (mutate_list h l f)"
  using assms
  by (auto simp: add_roi_def remove_roi_def list_rois_def new_list_def mutate_list_def Let_def
           split: sum.splits)

text \<open>
  Claim C8. \<open>add_roi\<close> raises the invalid-argument error, leaving everything as it
  was, for a ROI with \<open>x < 0\<close>, \<open>y < 0\<close>, \<open>width \<le> 0\<close> or \<open>height \<le> 0\<close>, and appends the
  ROI to the store's list otherwise. \<open>list_rois\<close> returns a new list object \<open>l\<close> with
  the store's elements; whatever is then done to the content of \<open>l\<close> (any \<open>f\<close>), the
  store's own list and the ROI objects are as before, and a later \<open>list_rois\<close> returns
  the same ROIs again.
\<close>

theorem roi_store_add_and_list:
  fixes h :: heap and self :: ROIManager and a :: ref and f :: "ref list \<Rightarrow> ref list"
  defines "r \<equiv> roi_objs h a"
  defines "l \<equiv> fst (list_rois h self)"
  defines "h1 \<equiv> snd (list_rois h self)"
  defines "h2 \<equiv> mutate_list h1 l f"
  shows "(roi_x r < 0 \<or> roi_y r < 0 \<or> roi_width r \<le> 0 \<or> roi_height r \<le> 0 \<longrightarrow>
            (\<exists>msg. add_roi h self a = (Some (ValueError msg), h)))
       \<and> (\<not> (roi_x r < 0 \<or> roi_y r < 0 \<or> roi_width r \<le> 0 \<or> roi_height r \<le> 0) \<longrightarrow>
            add_roi h self a
              = (None, h\<lparr>list_objs := (list_objs h)(self_rois self := list_objs h (self_rois self) @ [a])\<rparr>))
       \<and> (self_rois self < next_list h \<longrightarrow>
              l \<noteq> self_rois self
            \<and> list_objs h1 l = list_objs h (self_rois self)
            \<and> list_objs h1 (self_rois self) = list_objs h (self_rois self)
            \<and> roi_objs h1 = roi_objs h
            \<and> list_objs h2 (self_rois self) = list_objs h (self_rois self)
            \<and> roi_objs h2 = roi_objs h
            \<and> list_objs (snd (list_rois h2 self)) (fst (list_rois h2 self)) = list_objs h (self_rois self)
            \<and> view_list (snd (list_rois h2 self)) (fst (list_rois h2 self)) = view_list h1 l)"
  unfolding r_def l_def h1_def h2_def
  by (auto simp: add_roi_def Let_def mutate_list_def list_rois_def new_list_def view_list_def)

theorem roi_store_add_and_list_witness:
  "(\<exists>msg. add_roi ex_heap ex_mgr 2 = (Some (ValueError msg), ex_heap))
   \<and> list_objs (snd (add_roi ex_heap ex_mgr 1)) 0 = [0, 1, 0, 1]
   \<and> fst (list_rois ex_heap ex_mgr) = 1
   \<and> list_objs (snd (list_rois ex_heap ex_mgr)) 1 = [0, 1, 0]
   \<and> list_objs (mutate_list (snd (list_rois ex_heap ex_mgr)) 1 (\<lambda>xs. [])) 0 = [0, 1, 0]"
  using roi_store_add_and_list [of ex_heap 2 ex_mgr "\<lambda>xs. []"]
    roi_store_add_and_list [of ex_heap 1 ex_mgr "\<lambda>xs. []"]
  by (simp add: ex_heap_def ex_mgr_def list_rois_def new_list_def)

text \<open>
  The copy is one level deep, as the docstring of \<open>list_rois\<close> says: the elements of
  the returned list are the store's own ROI objects, so assigning to an attribute of
  an element (which changes no list) is seen through the store.
\<close>

lemma list_rois_shares_elements:
  "view_list (mutate_roi (snd (list_rois ex_heap ex_mgr)) (hd (list_objs (snd (list_rois ex_heap ex_mgr)) (fst (list_rois ex_heap ex_mgr)))) (\<lambda>r. r\<lparr>roi_x := 7\<rparr>)) (self_rois ex_mgr)
   \<noteq> view_list ex_heap (self_rois ex_mgr)"
  by (simp add: ex_heap_def ex_mgr_def list_rois_def new_list_def view_list_def mutate_roi_def)

subsection \<open>Clip timeline: detection\<close>

lemma float_of_nonneg: "0 \<le> float_of m"
  by (cases m) (simp add: float_of_def)

lemma build_clips_eq:
  "build_clips vid prev ts acc = (acc @ map (mk_clip vid) (zip (prev # ts) ts), last (prev # ts))"
  by (induction ts arbitrary: prev acc) (simp_all add: mk_clip_def)

lemma zip_boundaries:
  "zip (p # ts @ [d]) (ts @ [d]) = zip (p # ts) ts @ [(last (p # ts), d)]"
  by (induction ts arbitrary: p) simp_all

lemma starts_of_zip: "map start_time (map (mk_clip vid) (zip (p # ts @ [d]) (ts @ [d]))) = p # ts"
  by (induction ts arbitrary: p) (simp_all add: mk_clip_def Clip_init_def)

lemma ends_of_zip: "map end_time (map (mk_clip vid) (zip (p # ts @ [d]) (ts @ [d]))) = ts @ [d]"
  by (induction ts arbitrary: p) (simp_all add: mk_clip_def Clip_init_def)

lemma detect_clips_completed:
  assumes "0 < thr" "thr < 1" "ffmpeg (v_source_path video) thr = Completed report"
  shows "detect_clips ffmpeg video thr
           = Inr (map (mk_clip (v_video_id video))
                   (zip (0 # sort (map float_of (finditer_pts report)) @ [v_duration video])
                        (sort (map float_of (finditer_pts report)) @ [v_duration video])))"
  using assms
  by (simp add: detect_clips_def Let_def build_clips_eq zip_boundaries mk_clip_def)

text \<open>A run of the detector that exits abnormally gives the application error.\<close>

lemma detect_clips_failed_run:
  assumes "0 < thr" "thr < 1" "ffmpeg (v_source_path video) thr = CalledProcessError err"
  shows "detect_clips ffmpeg video thr = Inl (AppError ''Scene detection failed.'' err)"
  using assms by (simp add: detect_clips_def)

lemma sorted_boundaries: "sorted (0 # sort (map float_of ms))"
  by (auto simp: float_of_nonneg)

text \<open>
  Claim C1. \<open>detect_clips\<close> raises the invalid-argument error for every threshold not
  strictly between 0 and 1. For a threshold strictly between 0 and 1 and a report of
  the detector with \<open>n\<close> timestamps, it returns the \<open>n + 1\<close> clips
  \<open>(prev_boundary, boundary)\<close> over the boundaries sorted ascending with 0 in front
  and the video's duration behind; the first clip starts at 0, the last ends at the
  duration, each clip ends where the next starts, the start times ascend, and no clip
  ends after a later one starts.
\<close>

theorem detect_clips_spec:
  fixes ffmpeg :: "string \<Rightarrow> real \<Rightarrow> run_result" and video :: Video and thr :: real
  shows "(\<not> (0 < thr \<and> thr < 1) \<longrightarrow> (\<exists>msg. detect_clips ffmpeg video thr = Inl (ValueError msg)))
       \<and> (0 < thr \<and> thr < 1 \<longrightarrow>
            (\<forall>report. ffmpeg (v_source_path video) thr = Completed report \<longrightarrow>
               (\<exists>clips bs.
                    detect_clips ffmpeg video thr = Inr clips
                  \<and> bs = 0 # sort (map float_of (finditer_pts report)) @ [v_duration video]
                  \<and> clips = map (\<lambda>(a, b). Clip_init (v_video_id video) a b None) (zip bs (tl bs))
                  \<and> length clips = length (finditer_pts report) + 1
                  \<and> start_time (hd clips) = 0
                  \<and> end_time (last clips) = v_duration video
                  \<and> (\<forall>i. Suc i < length clips \<longrightarrow> end_time (clips ! i) = start_time (clips ! Suc i))
                  \<and> sorted (map start_time clips)
                  \<and> (\<forall>i j. i < j \<and> j < length clips \<longrightarrow> end_time (clips ! i) \<le> start_time (clips ! j)))))"
proof (intro conjI impI allI)
  assume "\<not> (0 < thr \<and> thr < 1)"
  then show "\<exists>msg. detect_clips ffmpeg video thr = Inl (ValueError msg)"
    by (simp add: detect_clips_def)
next
  fix report
  assume thr: "0 < thr \<and> thr < 1" and run: "ffmpeg (v_source_path video) thr = Completed report"
  define ts where "ts = sort (map float_of (finditer_pts report))"
  define d where "d = v_duration video"
  define clips where "clips = map (mk_clip (v_video_id video)) (zip (0 # ts @ [d]) (ts @ [d]))"
  have res: "detect_clips ffmpeg video thr = Inr clips"
    using thr run by (simp add: detect_clips_completed clips_def ts_def d_def)
  have mk: "mk_clip (v_video_id video) = (\<lambda>(a, b). Clip_init (v_video_id video) a b None)"
    by (auto simp: mk_clip_def)
  have len: "length clips = length ts + 1"
    by (simp add: clips_def)
  have starts: "map start_time clips = 0 # ts"
    unfolding clips_def by (rule starts_of_zip)
  have ends: "map end_time clips = ts @ [d]"
    unfolding clips_def by (rule ends_of_zip)
  have srt: "sorted (0 # ts)"
    unfolding ts_def by (rule sorted_boundaries)
  have ne: "clips \<noteq> []"
    using len by auto
  have st: "start_time (clips ! i) = (0 # ts) ! i" if "i < length clips" for i
    using that nth_map [of i clips start_time] starts by simp
  have en: "end_time (clips ! i) = (ts @ [d]) ! i" if "i < length clips" for i
    using that nth_map [of i clips end_time] ends by simp
  have first: "start_time (hd clips) = 0"
    using st [of 0] ne by (simp add: hd_conv_nth)
  have lst: "end_time (last clips) = d"
    using en [of "length clips - 1"] ne len by (simp add: last_conv_nth nth_append)
  have contig: "end_time (clips ! i) = start_time (clips ! Suc i)" if "Suc i < length clips" for i
    using that en [of i] st [of "Suc i"] len by (simp add: nth_append)
  have nonover: "end_time (clips ! i) \<le> start_time (clips ! j)" if "i < j" "j < length clips" for i j
  proof -
    have "end_time (clips ! i) = (0 # ts) ! Suc i"
      using that en [of i] len by (simp add: nth_append)
    moreover have "start_time (clips ! j) = (0 # ts) ! j"
      using that st [of j] by simp
    moreover have "(0 # ts) ! Suc i \<le> (0 # ts) ! j"
      using srt that len by (intro sorted_nth_mono) auto
    ultimately show ?thesis by simp
  qed
  show "\<exists>clips bs.
          detect_clips ffmpeg video thr = Inr clips
        \<and> bs = 0 # sort (map float_of (finditer_pts report)) @ [v_duration video]
        \<and> clips = map (\<lambda>(a, b). Clip_init (v_video_id video) a b None) (zip bs (tl bs))
        \<and> length clips = length (finditer_pts report) + 1
        \<and> start_time (hd clips) = 0
        \<and> end_time (last clips) = v_duration video
        \<and> (\<forall>i. Suc i < length clips \<longrightarrow> end_time (clips ! i) = start_time (clips ! Suc i))
        \<and> sorted (map start_time clips)
        \<and> (\<forall>i j. i < j \<and> j < length clips \<longrightarrow> end_time (clips ! i) \<le> start_time (clips ! j))"
  proof (intro exI [of _ clips] exI [of _ "0 # ts @ [d]"] conjI)
    show "detect_clips ffmpeg video thr = Inr clips" by (rule res)
    show "0 # ts @ [d] = 0 # sort (map float_of (finditer_pts report)) @ [v_duration video]"
      by (simp add: ts_def d_def)
    show "clips = map (\<lambda>(a, b). Clip_init (v_video_id video) a b None) (zip (0 # ts @ [d]) (tl (0 # ts @ [d])))"
      by (simp add: clips_def mk)
    show "length clips = length (finditer_pts report) + 1"
      using len by (simp add: ts_def)
    show "start_time (hd clips) = 0" by (rule first)
    show "end_time (last clips) = v_duration video" using lst by (simp add: d_def)
    show "\<forall>i. Suc i < length clips \<longrightarrow> end_time (clips ! i) = start_time (clips ! Suc i)"
      using contig by blast
    show "sorted (map start_time clips)" using starts srt by simp
    show "\<forall>i j. i < j \<and> j < length clips \<longrightarrow> end_time (clips ! i) \<le> start_time (clips ! j)"
      using nonover by blast
  qed
qed

theorem detect_clips_spec_witness:
  "(\<exists>msg. detect_clips (\<lambda>p t. Completed ex_report) ex_video 1 = Inl (ValueError msg))
   \<and> (\<exists>msg. detect_clips (\<lambda>p t. Completed ex_report) ex_video 0 = Inl (ValueError msg))
   \<and> detect_clips (\<lambda>p t. Completed ex_report) ex_video 0.4
       = Inr [Clip_init (Some 1) 0 2 None, Clip_init (Some 1) 2 4.5 None, Clip_init (Some 1) 4.5 10 None]"
proof -
  have ev: "detect_clips (\<lambda>p t. Completed ex_report) ex_video 0.4
       = Inr [Clip_init (Some 1) 0 2 None, Clip_init (Some 1) 2 4.5 None, Clip_init (Some 1) 4.5 10 None]"
    by code_simp
  show ?thesis
    using detect_clips_spec [of 1 "\<lambda>p t. Completed ex_report" ex_video]
      detect_clips_spec [of 0 "\<lambda>p t. Completed ex_report" ex_video]
      detect_clips_spec [of "0.4" "\<lambda>p t. Completed ex_report" ex_video] ev
    by simp
qed

subsection \<open>Clip timeline: split\<close>

lemma find_in_set: "find P xs = Some x \<Longrightarrow> x \<in> set xs"
  by (induction xs) (auto split: if_splits)

text \<open>
  Claim C4. \<open>split_clip\<close> raises the invalid-argument error and leaves heap and list as
  they were when no clip of the list has the identity, or when the split time is not
  strictly between start and end of the target (the first clip with that identity).
  Otherwise the target is removed from the list and two new clips are appended,
  \<open>(start, split_time)\<close> and \<open>(split_time, end)\<close>, both with the target's video id and
  no identity; the other clip objects are unchanged and the list is one longer.
\<close>

theorem split_clip_spec:
  fixes h :: clip_heap and clips :: "ref list" and cid :: int and t :: real
  defines "res \<equiv> split_clip h clips cid t"
  shows "((\<forall>c \<in> set clips. clip_id (clip_objs h c) \<noteq> Some cid) \<longrightarrow>
            (\<exists>msg. res = (Inl (ValueError msg), h, clips)))
       \<and> (\<forall>target. find (\<lambda>c. clip_id (clip_objs h c) = Some cid) clips = Some target \<longrightarrow>
            (\<not> (start_time (clip_objs h target) < t \<and> t < end_time (clip_objs h target)) \<longrightarrow>
               (\<exists>msg. res = (Inl (ValueError msg), h, clips)))
          \<and> (start_time (clip_objs h target) < t \<and> t < end_time (clip_objs h target) \<longrightarrow>
               (\<exists>h'. res = (Inr (next_clip h, Suc (next_clip h)), h',
                           remove1 target clips @ [next_clip h, Suc (next_clip h)])
                  \<and> clip_objs h' (next_clip h)
                      = \<lparr>clip_id = None, video_id = video_id (clip_objs h target),
                         start_time = start_time (clip_objs h target), end_time = t, file_path = None\<rparr>
                  \<and> clip_objs h' (Suc (next_clip h))
                      = \<lparr>clip_id = None, video_id = video_id (clip_objs h target),
                         start_time = t, end_time = end_time (clip_objs h target), file_path = None\<rparr>
                  \<and> (\<forall>a < next_clip h. clip_objs h' a = clip_objs h a)
                  \<and> length (remove1 target clips @ [next_clip h, Suc (next_clip h)]) = length clips + 1)))"
proof -
  have none: "(\<forall>c \<in> set clips. clip_id (clip_objs h c) \<noteq> Some cid) \<Longrightarrow>
      find (\<lambda>c. clip_id (clip_objs h c) = Some cid) clips = None"
    by (simp add: find_None_iff)
  show ?thesis
    unfolding res_def
    by (auto simp: split_clip_def none Let_def py_remove_def new_clip_def Clip_init_def
          length_remove1 dest: find_in_set length_pos_if_in_set)
qed

theorem split_clip_spec_witness:
  "split_clip ex_clips [0, 1] 102 7
     = (Inr (2, 3),
        ex_clips\<lparr>clip_objs := (clip_objs ex_clips)
           (2 := \<lparr>clip_id = None, video_id = Some 1, start_time = 5, end_time = 7, file_path = None\<rparr>,
            3 := \<lparr>clip_id = None, video_id = Some 1, start_time = 7, end_time = 10, file_path = None\<rparr>),
          next_clip := 4\<rparr>,
        [0, 2, 3])
   \<and> (\<exists>msg. split_clip ex_clips [0, 1] 102 5 = (Inl (ValueError msg), ex_clips, [0, 1]))
   \<and> (\<exists>msg. split_clip ex_clips [0, 1] 102 10 = (Inl (ValueError msg), ex_clips, [0, 1]))
   \<and> (\<exists>msg. split_clip ex_clips [0, 1] 103 7 = (Inl (ValueError msg), ex_clips, [0, 1]))"
  using split_clip_spec [where h = ex_clips and clips = "[0, 1]" and cid = 102 and t = 7]
    split_clip_spec [where h = ex_clips and clips = "[0, 1]" and cid = 102 and t = 5]
    split_clip_spec [where h = ex_clips and clips = "[0, 1]" and cid = 102 and t = 10]
    split_clip_spec [where h = ex_clips and clips = "[0, 1]" and cid = 103 and t = 7]
  by (simp add: ex_clips_def split_clip_def Let_def py_remove_def new_clip_def Clip_init_def)

subsection \<open>Clip timeline: merge\<close>

text \<open>
  The id map holds, for an id, a clip of the list with that id, and has an entry for
  exactly the ids that occur; removing distinct clips of the list one by one never
  fails.
\<close>

lemma fold_id_map_Some:
  "fold (\<lambda>a m. m(clip_id (clip_objs h a) \<mapsto> a)) clips m k = Some a \<Longrightarrow>
     (a \<in> set clips \<and> clip_id (clip_objs h a) = k) \<or> m k = Some a"
  by (induction clips arbitrary: m) (fastforce split: if_splits)+

lemma fold_id_map_dom:
  "(fold (\<lambda>a m. m(clip_id (clip_objs h a) \<mapsto> a)) clips m k \<noteq> None)
     = ((\<exists>c\<in>set clips. clip_id (clip_objs h c) = k) \<or> m k \<noteq> None)"
  by (induction clips arbitrary: m) auto

lemma id_map_of_Some:
  "id_map_of h clips k = Some a \<Longrightarrow> a \<in> set clips \<and> clip_id (clip_objs h a) = k"
  unfolding id_map_of_def by (drule fold_id_map_Some) simp

lemma id_map_of_dom:
  "(id_map_of h clips k \<noteq> None) = (\<exists>c\<in>set clips. clip_id (clip_objs h c) = k)"
  unfolding id_map_of_def using fold_id_map_dom [of h clips Map.empty k] by simp

lemma remove_each_distinct:
  "distinct sel \<Longrightarrow> set sel \<subseteq> set clips \<Longrightarrow>
     remove_each clips sel = (None, fold remove1 sel clips)
   \<and> length (fold remove1 sel clips) + length sel = length clips"
proof (induction sel arbitrary: clips)
  case Nil
  show ?case by simp
next
  case (Cons c sel)
  from Cons.prems have c: "c \<in> set clips" and nc: "c \<notin> set sel" and d: "distinct sel"
    by auto
  have sub: "set sel \<subseteq> set (remove1 c clips)"
  proof
    fix x assume x: "x \<in> set sel"
    with nc have "x \<noteq> c" by auto
    moreover from x Cons.prems have "x \<in> set clips" by auto
    ultimately show "x \<in> set (remove1 c clips)" by (simp add: in_set_remove1)
  qed
  have len: "length (remove1 c clips) + 1 = length clips"
    using c by (simp add: length_remove1) (metis length_pos_if_in_set Suc_pred)
  from Cons.IH [OF d sub] c len show ?case
    by (simp add: py_remove_def)
qed

text \<open>
  What \<open>merge_clips\<close> does outside the case of a repeated id. It raises the
  invalid-argument error, with heap and list as they were, when the ids are empty or
  not ascending, when an id has no clip in the list, or when the selected clips are
  not all of one video.
\<close>

lemma merge_clips_rejects:
  fixes h :: clip_heap and clips :: "ref list" and ids :: "int list"
  defines "sel \<equiv> map (\<lambda>cid. the (id_map_of h clips (Some cid))) ids"
  assumes "ids = [] \<or> \<not> sorted ids
         \<or> (\<exists>cid\<in>set ids. \<forall>c\<in>set clips. clip_id (clip_objs h c) \<noteq> Some cid)
         \<or> card (set (map (\<lambda>a. video_id (clip_objs h a)) sel)) \<noteq> 1"
  shows "\<exists>msg. merge_clips h clips ids = (Inl (ValueError msg), h, clips)"
proof (cases "ids = [] \<or> sort ids \<noteq> ids")
  case True
  then show ?thesis
    unfolding merge_clips_def by (simp only: if_True) blast
next
  case guard: False
  then have "sorted ids"
    by (metis sorted_sort)
  show ?thesis
  proof (cases "list_all (\<lambda>cid. id_map_of h clips (Some cid) \<noteq> None) ids")
    case False
    with guard show ?thesis
      unfolding merge_clips_def Let_def by (simp only: if_False if_True simp_thms) blast
  next
    case all: True
    then have "\<not> (\<exists>cid\<in>set ids. \<forall>c\<in>set clips. clip_id (clip_objs h c) \<noteq> Some cid)"
      by (auto simp: list_all_iff id_map_of_dom simp del: not_None_eq)
    with assms(2) guard \<open>sorted ids\<close>
    have "card (set (map (\<lambda>a. video_id (clip_objs h a)) sel)) \<noteq> 1"
      by blast
    with guard all show ?thesis
      unfolding merge_clips_def Let_def sel_def
      by (simp only: if_False if_True simp_thms) blast
  qed
qed

text \<open>
  For ids that are not empty and strictly ascending, all present and selecting clips
  of one video, it succeeds: the selected clips are distinct clips of the list, one
  for each id; they are removed and one new clip is appended, with their video id, the
  least start time, the greatest end time and no identity; the list is shorter by the
  number of ids less one.
\<close>

lemma merge_clips_strictly_ascending:
  fixes h :: clip_heap and clips :: "ref list" and ids :: "int list"
  defines "sel \<equiv> map (\<lambda>cid. the (id_map_of h clips (Some cid))) ids"
  assumes ne: "ids \<noteq> []" and asc: "sorted_wrt (<) ids"
    and present: "\<forall>cid\<in>set ids. \<exists>c\<in>set clips. clip_id (clip_objs h c) = Some cid"
    and one: "card (set (map (\<lambda>a. video_id (clip_objs h a)) sel)) = 1"
  shows "merge_clips h clips ids
           = (Inr (next_clip h),
              h\<lparr>clip_objs := (clip_objs h)(next_clip h :=
                   \<lparr>clip_id = None, video_id = video_id (clip_objs h (hd sel)),
                    start_time = Min (set (map (\<lambda>a. start_time (clip_objs h a)) sel)),
                    end_time = Max (set (map (\<lambda>a. end_time (clip_objs h a)) sel)),
                    file_path = None\<rparr>),
                 next_clip := Suc (next_clip h)\<rparr>,
              fold remove1 sel clips @ [next_clip h])"
    and "length (fold remove1 sel clips @ [next_clip h]) + length ids = length clips + 1"
    and "distinct sel" and "set sel \<subseteq> set clips"
    and "\<forall>i<length ids. clip_id (clip_objs h (sel ! i)) = Some (ids ! i)"
proof -
  from asc have srt: "sorted ids" and dist: "distinct ids"
    by (simp_all add: strict_sorted_iff)
  have found: "\<exists>a. id_map_of h clips (Some cid) = Some a" if "cid \<in> set ids" for cid
    using that present id_map_of_dom [of h clips "Some cid"] by auto
  have sel_prop: "the (id_map_of h clips (Some cid)) \<in> set clips
      \<and> clip_id (clip_objs h (the (id_map_of h clips (Some cid)))) = Some cid"
    if "cid \<in> set ids" for cid
    using found [OF that] id_map_of_Some [of h clips "Some cid"] by auto
  show sub: "set sel \<subseteq> set clips"
    unfolding sel_def using sel_prop by auto
  show ids_of: "\<forall>i<length ids. clip_id (clip_objs h (sel ! i)) = Some (ids ! i)"
    unfolding sel_def using sel_prop by simp
  show dsel: "distinct sel"
    unfolding sel_def distinct_map
  proof
    show "distinct ids" by (rule dist)
    show "inj_on (\<lambda>cid. the (id_map_of h clips (Some cid))) (set ids)"
    proof (rule inj_onI)
      fix a b assume a: "a \<in> set ids" and b: "b \<in> set ids"
        and eq: "the (id_map_of h clips (Some a)) = the (id_map_of h clips (Some b))"
      have "Some a = clip_id (clip_objs h (the (id_map_of h clips (Some a))))"
        using sel_prop [OF a] by simp
      also have "\<dots> = clip_id (clip_objs h (the (id_map_of h clips (Some b))))"
        by (simp only: eq)
      also have "\<dots> = Some b"
        using sel_prop [OF b] by simp
      finally show "a = b" by simp
    qed
  qed
  from remove_each_distinct [OF dsel sub]
  have rem: "remove_each clips sel = (None, fold remove1 sel clips)"
    and len: "length (fold remove1 sel clips) + length sel = length clips"
    by simp_all
  show "length (fold remove1 sel clips @ [next_clip h]) + length ids = length clips + 1"
    using len by (simp add: sel_def)
  have guard: "\<not> (ids = [] \<or> sort ids \<noteq> ids)"
    using ne srt by (simp add: sorted_sort_id)
  have all: "list_all (\<lambda>cid. id_map_of h clips (Some cid) \<noteq> None) ids"
    using found by (auto simp: list_all_iff)
  show "merge_clips h clips ids
           = (Inr (next_clip h),
              h\<lparr>clip_objs := (clip_objs h)(next_clip h :=
                   \<lparr>clip_id = None, video_id = video_id (clip_objs h (hd sel)),
                    start_time = Min (set (map (\<lambda>a. start_time (clip_objs h a)) sel)),
                    end_time = Max (set (map (\<lambda>a. end_time (clip_objs h a)) sel)),
                    file_path = None\<rparr>),
                 next_clip := Suc (next_clip h)\<rparr>,
              fold remove1 sel clips @ [next_clip h])"
    unfolding merge_clips_def Let_def sel_def [symmetric]
    using guard all one rem
    by (simp only: if_False if_True not_True_eq_False not_not prod.case option.case
          new_clip_def Clip_init_def simp_thms)
qed

text \<open>
  Claim C3, at the ids \<open>[101, 101]\<close> on the list of the two clips 101 and 102: the
  guard lets the repeated id pass (the list equals its sorted self), clip 101 is
  removed, and the second removal of the same clip raises; the call fails with the
  invalid-argument error and the list has lost clip 101.
\<close>

theorem merge_clips_duplicate_id:
  "merge_clips ex_clips [0, 1] [101, 101]
     = (Inl (ValueError ''list.remove(x): x not in list''), ex_clips, [1])"
  by (simp add: merge_clips_def ex_clips_def id_map_of_def Let_def py_remove_def)

lemma merge_clips_example:
  "merge_clips ex_clips [0, 1] [101, 102]
     = (Inr 2,
        ex_clips\<lparr>clip_objs := (clip_objs ex_clips)
           (2 := \<lparr>clip_id = None, video_id = Some 1, start_time = 0, end_time = 10, file_path = None\<rparr>),
          next_clip := 3\<rparr>,
        [2])"
  by (simp add: merge_clips_def ex_clips_def id_map_of_def Let_def py_remove_def new_clip_def Clip_init_def)

subsection \<open>Frame sampler\<close>

text \<open>
  The sampling loop in terms of its rounds: round \<open>i\<close> runs at the offset
  \<open>offset_at iv t i\<close> and reads \<open>read_at e iv cap t i\<close>. If the loop returns, some
  round stops it (the offset is not below the duration, or the read gives nothing); and
  if some round stops it, it returns the frames read before the first such round, in
  order, each with the timestamp \<open>start + offset\<close>, rounded.
\<close>

lemma offset_at_shift: "offset_at iv t (Suc i) = offset_at iv (fadd t iv) i"
  by (induction i) simp_all

lemma cap_at_shift:
  "cap_at e iv cap t (Suc i)
     = cap_at e iv (snd (env_read e (env_set e cap (fmul t 1000)))) (fadd t iv) i"
proof (induction i)
  case 0
  show ?case by simp
next
  case (Suc i)
  show ?case
    unfolding cap_at.simps(2) [of e iv cap t "Suc i"] Suc.IH offset_at_shift
    by simp
qed

lemma read_at_shift:
  "read_at e iv cap t (Suc i)
     = read_at e iv (snd (env_read e (env_set e cap (fmul t 1000)))) (fadd t iv) i"
  unfolding read_at_def by (simp only: cap_at_shift offset_at_shift)

lemma map_upt_shift: "map f [0..<Suc m] = f 0 # map (\<lambda>i. f (Suc i)) [0..<m]"
  by (simp add: upt_conv_Cons map_Suc_upt [symmetric] del: upt_Suc)

lemma sample_loop_stops:
  assumes ret: "sample_loop e st iv dur cap fb t tr = Some y"
  shows "\<exists>k. \<not> offset_at iv t k < dur \<or> read_at e iv cap t k = None"
proof (rule sample_loop.raw_induct
    [where P = "\<lambda>e st iv dur cap fb t tr y.
       \<exists>k. \<not> offset_at iv t k < dur \<or> read_at e iv cap t k = None", OF _ ret])
  fix loop :: "('a, 'b) env \<Rightarrow> real \<Rightarrow> real \<Rightarrow> real \<Rightarrow> 'a \<Rightarrow> 'b FrameBatch \<Rightarrow> real
      \<Rightarrow> ext_call list \<Rightarrow> ('a \<times> 'b FrameBatch \<times> ext_call list) option"
    and e st iv dur cap fb t tr y
  assume IH: "\<And>e st iv dur cap fb t tr y. loop e st iv dur cap fb t tr = Some y \<Longrightarrow>
      \<exists>k. \<not> offset_at iv t k < dur \<or> read_at e iv cap t k = None"
    and body: "(if t < dur
      then case env_read e (env_set e cap (fmul t 1000)) of
           (None, capture') \<Rightarrow> Some (capture', fb, tr @ [CapSet (fmul t 1000), CapRead])
         | (Some frame, capture') \<Rightarrow>
             loop e st iv dur capture' (add_frame fb frame (fadd st t)) (fadd t iv)
               (tr @ [CapSet (fmul t 1000), CapRead])
      else Some (cap, fb, tr)) = Some y"
  show "\<exists>k. \<not> offset_at iv t k < dur \<or> read_at e iv cap t k = None"
  proof (cases "t < dur")
    case False
    then have "\<not> offset_at iv t 0 < dur" by simp
    then show ?thesis by blast
  next
    case True
    obtain r cap2 where rd: "env_read e (env_set e cap (fmul t 1000)) = (r, cap2)"
      by (cases "env_read e (env_set e cap (fmul t 1000))")
    show ?thesis
    proof (cases r)
      case None
      with rd have "read_at e iv cap t 0 = None"
        by (simp add: read_at_def)
      then show ?thesis by blast
    next
      case (Some frame)
      with body True rd
      have "loop e st iv dur cap2 (add_frame fb frame (fadd st t)) (fadd t iv)
              (tr @ [CapSet (fmul t 1000), CapRead]) = Some y"
        by simp
      from IH [OF this] obtain k where
        "\<not> offset_at iv (fadd t iv) k < dur \<or> read_at e iv cap2 (fadd t iv) k = None"
        by blast
      moreover have "cap2 = snd (env_read e (env_set e cap (fmul t 1000)))"
        using rd by simp
      ultimately have "\<not> offset_at iv t (Suc k) < dur \<or> read_at e iv cap t (Suc k) = None"
        by (simp only: offset_at_shift read_at_shift)
      then show ?thesis by blast
    qed
  qed
qed

lemma sample_loop_result:
  "\<not> offset_at iv t k < dur \<or> read_at e iv cap t k = None \<Longrightarrow>
    \<exists>cap' fb' tr' m.
       sample_loop e st iv dur cap fb t tr = Some (cap', fb', tr')
     \<and> frames fb' = frames fb @ map (\<lambda>i. the (read_at e iv cap t i)) [0..<m]
     \<and> timestamps fb' = timestamps fb @ map (\<lambda>i. fadd st (offset_at iv t i)) [0..<m]
     \<and> fb_clip_id fb' = fb_clip_id fb
     \<and> (\<forall>i<m. offset_at iv t i < dur \<and> read_at e iv cap t i \<noteq> None)
     \<and> (\<not> offset_at iv t m < dur \<or> read_at e iv cap t m = None)
     \<and> (\<exists>sfx. tr' = tr @ sfx)"
proof (induction k arbitrary: cap fb t tr)
  case 0
  show ?case
  proof (cases "t < dur")
    case False
    then have "sample_loop e st iv dur cap fb t tr = Some (cap, fb, tr)"
      by (subst sample_loop.simps) simp
    with False show ?thesis
      by (intro exI [of _ cap] exI [of _ fb] exI [of _ tr] exI [of _ 0]) simp
  next
    case True
    with 0 have none: "read_at e iv cap t 0 = None" by simp
    obtain r cap2 where rd: "env_read e (env_set e cap (fmul t 1000)) = (r, cap2)"
      by (cases "env_read e (env_set e cap (fmul t 1000))")
    with none have "r = None" by (simp add: read_at_def)
    with True rd have "sample_loop e st iv dur cap fb t tr
          = Some (cap2, fb, tr @ [CapSet (fmul t 1000), CapRead])"
      by (subst sample_loop.simps) simp
    with none show ?thesis
      by (intro exI [of _ cap2] exI [of _ fb] exI [of _ "tr @ [CapSet (fmul t 1000), CapRead]"]
            exI [of _ 0]) simp
  qed
next
  case (Suc k)
  show ?case
  proof (cases "t < dur")
    case False
    then have "sample_loop e st iv dur cap fb t tr = Some (cap, fb, tr)"
      by (subst sample_loop.simps) simp
    with False show ?thesis
      by (intro exI [of _ cap] exI [of _ fb] exI [of _ tr] exI [of _ 0]) simp
  next
    case True
    obtain r cap2 where rd: "env_read e (env_set e cap (fmul t 1000)) = (r, cap2)"
      by (cases "env_read e (env_set e cap (fmul t 1000))")
    show ?thesis
    proof (cases r)
      case None
      with True rd have "sample_loop e st iv dur cap fb t tr
          = Some (cap2, fb, tr @ [CapSet (fmul t 1000), CapRead])"
        by (subst sample_loop.simps) simp
      moreover have "read_at e iv cap t 0 = None"
        using rd None by (simp add: read_at_def)
      ultimately show ?thesis
        by (intro exI [of _ cap2] exI [of _ fb] exI [of _ "tr @ [CapSet (fmul t 1000), CapRead]"]
              exI [of _ 0]) simp
    next
      case (Some frame)
      let ?fb2 = "add_frame fb frame (fadd st t)"
      let ?tr2 = "tr @ [CapSet (fmul t 1000), CapRead]"
      have step: "sample_loop e st iv dur cap fb t tr
          = sample_loop e st iv dur cap2 ?fb2 (fadd t iv) ?tr2"
        using True rd Some by (subst sample_loop.simps) simp
      have cap2: "cap2 = snd (env_read e (env_set e cap (fmul t 1000)))"
        using rd by simp
      have r0: "read_at e iv cap t 0 = Some frame"
        using rd Some by (simp add: read_at_def)
      have rs: "read_at e iv cap t (Suc i) = read_at e iv cap2 (fadd t iv) i" for i
        unfolding cap2 by (rule read_at_shift)
      have os: "offset_at iv t (Suc i) = offset_at iv (fadd t iv) i" for i
        by (rule offset_at_shift)
      have "\<not> offset_at iv (fadd t iv) k < dur \<or> read_at e iv cap2 (fadd t iv) k = None"
        using Suc.prems by (simp only: os rs)
      from Suc.IH [OF this, of ?fb2 ?tr2]
      obtain cap' fb' tr' m where
        res: "sample_loop e st iv dur cap2 ?fb2 (fadd t iv) ?tr2 = Some (cap', fb', tr')"
        and fr: "frames fb' = frames ?fb2 @ map (\<lambda>i. the (read_at e iv cap2 (fadd t iv) i)) [0..<m]"
        and tms: "timestamps fb' = timestamps ?fb2 @ map (\<lambda>i. fadd st (offset_at iv (fadd t iv) i)) [0..<m]"
        and cid: "fb_clip_id fb' = fb_clip_id ?fb2"
        and below: "\<forall>i<m. offset_at iv (fadd t iv) i < dur \<and> read_at e iv cap2 (fadd t iv) i \<noteq> None"
        and stop: "\<not> offset_at iv (fadd t iv) m < dur \<or> read_at e iv cap2 (fadd t iv) m = None"
        and sfx: "\<exists>sfx. tr' = ?tr2 @ sfx"
        by blast
      have "frames fb' = frames fb @ map (\<lambda>i. the (read_at e iv cap t i)) [0..<Suc m]"
        unfolding map_upt_shift rs using fr r0 by (simp add: add_frame_def)
      moreover have "timestamps fb' = timestamps fb @ map (\<lambda>i. fadd st (offset_at iv t i)) [0..<Suc m]"
        unfolding map_upt_shift os using tms by (simp add: add_frame_def)
      moreover have "fb_clip_id fb' = fb_clip_id fb"
        using cid by (simp add: add_frame_def)
      moreover have "\<forall>i<Suc m. offset_at iv t i < dur \<and> read_at e iv cap t i \<noteq> None"
      proof (intro allI impI)
        fix i assume "i < Suc m"
        show "offset_at iv t i < dur \<and> read_at e iv cap t i \<noteq> None"
        proof (cases i)
          case 0
          with True r0 show ?thesis by simp
        next
          case (Suc j)
          with \<open>i < Suc m\<close> have "j < m" by simp
          with below have "offset_at iv (fadd t iv) j < dur \<and> read_at e iv cap2 (fadd t iv) j \<noteq> None"
            by blast
          then show ?thesis
            unfolding Suc rs os .
        qed
      qed
      moreover have "\<not> offset_at iv t (Suc m) < dur \<or> read_at e iv cap t (Suc m) = None"
        using stop unfolding rs os .
      moreover have "\<exists>sfx. tr' = tr @ sfx"
        using sfx by auto
      ultimately show ?thesis
        using step res by (intro exI [of _ cap'] exI [of _ fb'] exI [of _ tr'] exI [of _ "Suc m"]) simp
    qed
  qed
qed

lemma sample_loop_returned:
  assumes ret: "sample_loop e st iv dur cap (FrameBatch_init c) 0 tr = Some (cap', fb, tr')"
  shows "fb_clip_id fb = c"
    and "length (frames fb) = length (timestamps fb)"
    and "\<forall>i<length (frames fb).
            timestamps fb ! i = fadd st (offset_at iv 0 i)
          \<and> offset_at iv 0 i < dur
          \<and> read_at e iv cap 0 i = Some (frames fb ! i)"
    and "\<not> offset_at iv 0 (length (frames fb)) < dur
         \<or> read_at e iv cap 0 (length (frames fb)) = None"
    and "\<exists>sfx. tr' = tr @ sfx"
proof -
  from sample_loop_stops [OF ret] obtain k where
    "\<not> offset_at iv 0 k < dur \<or> read_at e iv cap 0 k = None"
    by blast
  from sample_loop_result [OF this, of st "FrameBatch_init c" tr]
  obtain cap2 fb2 tr2 m where
    res: "sample_loop e st iv dur cap (FrameBatch_init c) 0 tr = Some (cap2, fb2, tr2)"
    and fr: "frames fb2 = map (\<lambda>i. the (read_at e iv cap 0 i)) [0..<m]"
    and tms: "timestamps fb2 = map (\<lambda>i. fadd st (offset_at iv 0 i)) [0..<m]"
    and cid: "fb_clip_id fb2 = c"
    and below: "\<forall>i<m. offset_at iv 0 i < dur \<and> read_at e iv cap 0 i \<noteq> None"
    and stop: "\<not> offset_at iv 0 m < dur \<or> read_at e iv cap 0 m = None"
    and sfx: "\<exists>sfx. tr2 = tr @ sfx"
    by (auto simp: FrameBatch_init_def)
  from res ret have eq: "fb2 = fb" "tr2 = tr'"
    by simp_all
  have len: "length (frames fb) = m"
    using fr eq by auto
  show "fb_clip_id fb = c"
    using cid eq by simp
  show "length (frames fb) = length (timestamps fb)"
    using fr tms eq by auto
  show "\<forall>i<length (frames fb).
            timestamps fb ! i = fadd st (offset_at iv 0 i)
          \<and> offset_at iv 0 i < dur
          \<and> read_at e iv cap 0 i = Some (frames fb ! i)"
    using below unfolding len eq [symmetric] fr tms by auto
  show "\<not> offset_at iv 0 (length (frames fb)) < dur
         \<or> read_at e iv cap 0 (length (frames fb)) = None"
    using stop unfolding len .
  show "\<exists>sfx. tr' = tr @ sfx"
    using sfx eq by simp
qed

lemma sample_loop_returns:
  assumes "\<not> offset_at iv t k < dur \<or> read_at e iv cap t k = None"
  shows "\<exists>r. sample_loop e st iv dur cap fb t tr = Some r"
  using sample_loop_result [OF assms, of st fb tr] by blast

lemma materialize_clip:
  assumes "materialize e clip video temp_dir = (err, clip', tr)"
  shows "start_time clip' = start_time clip" and "end_time clip' = end_time clip"
    and "clip_id clip' = clip_id clip"
    and "err = None \<Longrightarrow> file_path clip' \<noteq> None"
    and "err \<noteq> None \<Longrightarrow> \<exists>a b. err = Some (AppError a b)"
  using assms
  by (auto simp: materialize_def Let_def split: option.splits prod.splits run_result.splits)

text \<open>
  Runs of the sampler, evaluated: a clip of a quarter of a second, a decoder that runs
  out of frames, a clip of one second whose eleventh offset is still below its length,
  and a clip so late that adding a second does not change the timestamp.
\<close>

lemma str_int_1: "str_int 1 = ''1''"
  by code_simp


lemma ex_extract_drift:
  "extract_frames_for_clip (ex_env 20) (ex_segment 0 1) ex_video 10 None
     = Some (Inr \<lparr>fb_clip_id = 7, frames = [0, 1, 2, 3, 4, 5, 6, 7, 8, 9, 10],
                  timestamps = [0, 3602879701896397 / 36028797018963968, 3602879701896397 / 18014398509481984, 1351079888211149 / 4503599627370496, 3602879701896397 / 9007199254740992, 1 / 2, 5404319552844595 / 9007199254740992, 3152519739159347 / 4503599627370496, 7205759403792793 / 9007199254740992, 2026619832316723 / 2251799813685248, 9007199254740991 / 9007199254740992]\<rparr>,
             ex_segment 0 1,
             [VideoCapture ''clip_7.mp4'', IsOpened,
              CapSet 0, CapRead, CapSet 100, CapRead, CapSet 200, CapRead, CapSet (5277655813324801 / 17592186044416), CapRead, CapSet 400, CapRead, CapSet 500, CapRead, CapSet 600, CapRead, CapSet 700, CapRead, CapSet (7036874417766399 / 8796093022208), CapRead, CapSet (7916483719987199 / 8796093022208), CapRead, CapSet (8796093022207999 / 8796093022208), CapRead, CapRelease])"
  apply (simp add: extract_frames_for_clip_def materialize_def ex_env_def ex_clip_def ex_segment_def
        ex_video_def path_join_def clip_file_name_def batch_id_def str_int_1 FrameBatch_init_def
        Let_def float_eval)
  apply (subst sample_loop.simps)
  apply (simp add: add_frame_def float_eval)
  apply (subst sample_loop.simps)
  apply (simp add: add_frame_def float_eval)
  apply (subst sample_loop.simps)
  apply (simp add: add_frame_def float_eval)
  apply (subst sample_loop.simps)
  apply (simp add: add_frame_def float_eval)
  apply (subst sample_loop.simps)
  apply (simp add: add_frame_def float_eval)
  apply (subst sample_loop.simps)
  apply (simp add: add_frame_def float_eval)
  apply (subst sample_loop.simps)
  apply (simp add: add_frame_def float_eval)
  apply (subst sample_loop.simps)
  apply (simp add: add_frame_def float_eval)
  apply (subst sample_loop.simps)
  apply (simp add: add_frame_def float_eval)
  apply (subst sample_loop.simps)
  apply (simp add: add_frame_def float_eval)
  apply (subst sample_loop.simps)
  apply (simp add: add_frame_def float_eval)
  apply (subst sample_loop.simps)
  apply (simp add: add_frame_def float_eval)
  done

lemma ex_extract_absorbed:
  "extract_frames_for_clip (ex_env 20) (ex_segment 18014398509481984 18014398509481988) ex_video 1 None
     = Some (Inr \<lparr>fb_clip_id = 7, frames = [0, 1, 2, 3],
                  timestamps = [18014398509481984, 18014398509481984, 18014398509481984, 18014398509481988]\<rparr>,
             ex_segment 18014398509481984 18014398509481988,
             [VideoCapture ''clip_7.mp4'', IsOpened,
              CapSet 0, CapRead, CapSet 1000, CapRead, CapSet 2000, CapRead, CapSet 3000, CapRead, CapRelease])"
  apply (simp add: extract_frames_for_clip_def materialize_def ex_env_def ex_clip_def ex_segment_def
        ex_video_def path_join_def clip_file_name_def batch_id_def str_int_1 FrameBatch_init_def
        Let_def float_eval)
  apply (subst sample_loop.simps)
  apply (simp add: add_frame_def float_eval)
  apply (subst sample_loop.simps)
  apply (simp add: add_frame_def float_eval)
  apply (subst sample_loop.simps)
  apply (simp add: add_frame_def float_eval)
  apply (subst sample_loop.simps)
  apply (simp add: add_frame_def float_eval)
  apply (subst sample_loop.simps)
  apply (simp add: add_frame_def float_eval)
  done

lemma ex_extract_plain:
  "extract_frames_for_clip (ex_env 5) (ex_segment 2 (9 / 4)) ex_video 10 None
     = Some (Inr \<lparr>fb_clip_id = 7, frames = [0, 1, 2],
                  timestamps = [2, 4728779608739021 / 2251799813685248,
                                2476979795053773 / 1125899906842624]\<rparr>,
             ex_segment 2 (9 / 4),
             [VideoCapture ''clip_7.mp4'', IsOpened,
              CapSet 0, CapRead, CapSet 100, CapRead, CapSet 200, CapRead, CapRelease])"
  apply (simp add: extract_frames_for_clip_def materialize_def ex_env_def ex_clip_def ex_segment_def
        ex_video_def path_join_def clip_file_name_def batch_id_def str_int_1 FrameBatch_init_def
        Let_def float_eval)
  apply (subst sample_loop.simps)
  apply (simp add: add_frame_def float_eval)
  apply (subst sample_loop.simps)
  apply (simp add: add_frame_def float_eval)
  apply (subst sample_loop.simps)
  apply (simp add: add_frame_def float_eval)
  apply (subst sample_loop.simps)
  apply (simp add: add_frame_def float_eval)
  done

lemma ex_plain_stop: "\<not> offset_at (fdiv 1 10) 0 3 < fsub (9 / 4) 2"
  by (simp add: numeral_3_eq_3 float_eval)

text \<open>
  Claim C5, as the code has it. For \<open>fps \<le> 0\<close>, \<open>extract_frames_for_clip\<close> raises the
  invalid-argument error with no external call made and the clip untouched. For
  \<open>fps > 0\<close>, with the interval \<open>iv\<close> the double \<open>1 / fps\<close>, the length \<open>dur\<close> the
  double \<open>end_time - start_time\<close>, and the offsets \<open>offset_at iv 0 i\<close> got from 0 by
  \<open>i\<close> rounded additions of \<open>iv\<close>: an error it returns is an application error (of the
  trim or of opening the segment), never one of a read. A batch it returns has as many
  timestamps as frames; the \<open>i\<close>-th timestamp is the double \<open>start_time + offset i\<close>,
  the offset \<open>i\<close> is strictly below \<open>dur\<close> and the \<open>i\<close>-th frame is what the decoder
  read in round \<open>i\<close>; the batch stops where the offsets reach \<open>dur\<close> or the read gave
  nothing. And if there is such a round at all (an offset not below \<open>dur\<close>, or a read
  that gives nothing), the call returns, and it returns a batch whenever the trim
  succeeded and the segment opened.
\<close>

theorem extract_frames_spec:
  fixes e :: "('d, 'f) env" and clip :: Clip and video :: Video and fps :: real
    and temp_dir :: "string option"
  defines "res \<equiv> extract_frames_for_clip e clip video fps temp_dir"
  defines "iv \<equiv> fdiv 1 fps"
  defines "dur \<equiv> fsub (end_time clip) (start_time clip)"
  defines "mat \<equiv> materialize e clip video temp_dir"
  defines "cap0 \<equiv> env_VideoCapture e (the (file_path (fst (snd mat))))"
  shows "(fps \<le> 0 \<longrightarrow> (\<exists>msg. res = Some (Inl (ValueError msg), clip, [])))
       \<and> (0 < fps \<longrightarrow>
             (\<forall>err clip' tr. res = Some (Inl err, clip', tr) \<longrightarrow> (\<exists>a b. err = AppError a b))
           \<and> (\<forall>fb clip' tr. res = Some (Inr fb, clip', tr) \<longrightarrow>
                  length (frames fb) = length (timestamps fb)
                \<and> (\<forall>i<length (frames fb).
                       timestamps fb ! i = fadd (start_time clip) (offset_at iv 0 i)
                     \<and> offset_at iv 0 i < dur
                     \<and> read_at e iv cap0 0 i = Some (frames fb ! i))
                \<and> (\<not> offset_at iv 0 (length (frames fb)) < dur
                     \<or> read_at e iv cap0 0 (length (frames fb)) = None))
           \<and> ((\<exists>k. \<not> offset_at iv 0 k < dur \<or> read_at e iv cap0 0 k = None) \<longrightarrow>
                  (\<exists>r. res = Some r)
                \<and> (fst mat = None \<and> env_isOpened e cap0 \<longrightarrow>
                      (\<exists>fb clip' tr. res = Some (Inr fb, clip', tr)))))"
proof -
  have A: "\<exists>msg. res = Some (Inl (ValueError msg), clip, [])" if "fps \<le> 0"
    using that by (simp add: res_def extract_frames_for_clip_def)
  obtain err clip1 tr0 where m: "materialize e clip video temp_dir = (err, clip1, tr0)"
    by (cases "materialize e clip video temp_dir")
  note mc = materialize_clip [OF m]
  have cap0: "cap0 = env_VideoCapture e (the (file_path clip1))"
    by (simp add: cap0_def mat_def m)
  have fm: "fst mat = err"
    by (simp add: mat_def m)
  let ?path = "the (file_path clip1)"
  let ?tr1 = "tr0 @ [VideoCapture ?path, IsOpened]"
  let ?loop = "sample_loop e (start_time clip) iv dur cap0 (FrameBatch_init (batch_id clip1)) 0 ?tr1"
  have res_cases:
    "res = (case err of
              Some x \<Rightarrow> Some (Inl x, clip1, tr0)
            | None \<Rightarrow>
                if \<not> env_isOpened e cap0
                then Some (Inl (AppError ''Cannot open clip file for frame extraction.'' ?path), clip1, ?tr1)
                else (case ?loop of
                        None \<Rightarrow> None
                      | Some (capture', frame_batch, tr2) \<Rightarrow>
                          Some (Inr frame_batch, clip1, tr2 @ [CapRelease])))"
    if "0 < fps"
    using that m
    by (simp add: res_def extract_frames_for_clip_def Let_def cap0 iv_def dur_def mc(1) mc(2)
          split: option.splits)
  have B1: "\<exists>a b. x = AppError a b" if "0 < fps" "res = Some (Inl x, clip', tr)" for x clip' tr
    using that(2) mc(5) unfolding res_cases [OF that(1)]
    by (auto split: option.splits if_splits prod.splits)
  have B2: "length (frames fb) = length (timestamps fb)
                \<and> (\<forall>i<length (frames fb).
                       timestamps fb ! i = fadd (start_time clip) (offset_at iv 0 i)
                     \<and> offset_at iv 0 i < dur
                     \<and> read_at e iv cap0 0 i = Some (frames fb ! i))
                \<and> (\<not> offset_at iv 0 (length (frames fb)) < dur
                     \<or> read_at e iv cap0 0 (length (frames fb)) = None)"
    if fps: "0 < fps" and r: "res = Some (Inr fb, clip', tr)" for fb clip' tr
  proof -
    from r obtain cap' tr2 where "?loop = Some (cap', fb, tr2)"
      unfolding res_cases [OF fps]
      by (auto split: option.splits if_splits prod.splits)
    from sample_loop_returned(2-4) [OF this] show ?thesis
      by blast
  qed
  have B3: "(\<exists>r. res = Some r)
          \<and> (fst mat = None \<and> env_isOpened e cap0 \<longrightarrow> (\<exists>fb clip' tr. res = Some (Inr fb, clip', tr)))"
    if fps: "0 < fps" and stop: "\<not> offset_at iv 0 k < dur \<or> read_at e iv cap0 0 k = None" for k
  proof -
    from sample_loop_returns [OF stop, of "start_time clip" "FrameBatch_init (batch_id clip1)" ?tr1]
    obtain cap' fb tr2 where "?loop = Some (cap', fb, tr2)"
      by (metis prod_cases3)
    then show ?thesis
      unfolding res_cases [OF fps] fm
      by (auto split: option.splits)
  qed
  show ?thesis
  proof (rule conjI)
    show "fps \<le> 0 \<longrightarrow> (\<exists>msg. res = Some (Inl (ValueError msg), clip, []))"
      using A by (rule impI)
    show "0 < fps \<longrightarrow>
             (\<forall>err clip' tr. res = Some (Inl err, clip', tr) \<longrightarrow> (\<exists>a b. err = AppError a b))
           \<and> (\<forall>fb clip' tr. res = Some (Inr fb, clip', tr) \<longrightarrow>
                  length (frames fb) = length (timestamps fb)
                \<and> (\<forall>i<length (frames fb).
                       timestamps fb ! i = fadd (start_time clip) (offset_at iv 0 i)
                     \<and> offset_at iv 0 i < dur
                     \<and> read_at e iv cap0 0 i = Some (frames fb ! i))
                \<and> (\<not> offset_at iv 0 (length (frames fb)) < dur
                     \<or> read_at e iv cap0 0 (length (frames fb)) = None))
           \<and> ((\<exists>k. \<not> offset_at iv 0 k < dur \<or> read_at e iv cap0 0 k = None) \<longrightarrow>
                  (\<exists>r. res = Some r)
                \<and> (fst mat = None \<and> env_isOpened e cap0 \<longrightarrow>
                      (\<exists>fb clip' tr. res = Some (Inr fb, clip', tr))))"
    proof (rule impI, intro conjI)
      assume fps: "0 < fps"
      show "\<forall>err clip' tr. res = Some (Inl err, clip', tr) \<longrightarrow> (\<exists>a b. err = AppError a b)"
        by (intro allI impI) (rule B1 [OF fps])
      show "\<forall>fb clip' tr. res = Some (Inr fb, clip', tr) \<longrightarrow>
                  length (frames fb) = length (timestamps fb)
                \<and> (\<forall>i<length (frames fb).
                       timestamps fb ! i = fadd (start_time clip) (offset_at iv 0 i)
                     \<and> offset_at iv 0 i < dur
                     \<and> read_at e iv cap0 0 i = Some (frames fb ! i))
                \<and> (\<not> offset_at iv 0 (length (frames fb)) < dur
                     \<or> read_at e iv cap0 0 (length (frames fb)) = None)"
        by (intro allI impI) (rule B2 [OF fps])
      show "(\<exists>k. \<not> offset_at iv 0 k < dur \<or> read_at e iv cap0 0 k = None) \<longrightarrow>
                  (\<exists>r. res = Some r)
                \<and> (fst mat = None \<and> env_isOpened e cap0 \<longrightarrow>
                      (\<exists>fb clip' tr. res = Some (Inr fb, clip', tr)))"
        by (rule impI, erule exE) (rule B3 [OF fps])
    qed
  qed
qed

theorem extract_frames_spec_witness:
  "(\<exists>msg. extract_frames_for_clip (ex_env 5) (ex_segment 2 (9 / 4)) ex_video 0 None
            = Some (Inl (ValueError msg), ex_segment 2 (9 / 4), []))
   \<and> extract_frames_for_clip (ex_env 5) (ex_segment 2 (9 / 4)) ex_video 10 None
       = Some (Inr \<lparr>fb_clip_id = 7, frames = [0, 1, 2],
                    timestamps = [2, 4728779608739021 / 2251799813685248,
                                  2476979795053773 / 1125899906842624]\<rparr>,
               ex_segment 2 (9 / 4),
               [VideoCapture ''clip_7.mp4'', IsOpened,
                CapSet 0, CapRead, CapSet 100, CapRead, CapSet 200, CapRead, CapRelease])
   \<and> length [0, 1, 2 :: nat]
       = length [2, 4728779608739021 / 2251799813685248, 2476979795053773 / 1125899906842624 :: real]
   \<and> fadd 2 (offset_at (fdiv 1 10) 0 1) = 4728779608739021 / 2251799813685248
   \<and> fadd 2 (offset_at (fdiv 1 10) 0 2) = 2476979795053773 / 1125899906842624
   \<and> offset_at (fdiv 1 10) 0 2 < fsub (9 / 4) 2
   \<and> \<not> offset_at (fdiv 1 10) 0 3 < fsub (9 / 4) 2
   \<and> (\<exists>r. extract_frames_for_clip (ex_env 5) (ex_segment 2 (9 / 4)) ex_video 10 None = Some r)"
proof -
  have le: "(0 :: real) \<le> 0" and lt: "(0 :: real) < 10"
    by simp_all
  note at0 = extract_frames_spec [where e = "ex_env 5" and clip = "ex_segment 2 (9 / 4)"
      and video = ex_video and fps = 0 and temp_dir = None, THEN conjunct1, THEN mp, OF le]
  note at10 = extract_frames_spec [where e = "ex_env 5" and clip = "ex_segment 2 (9 / 4)"
      and video = ex_video and fps = 10 and temp_dir = None, THEN conjunct2, THEN mp, OF lt]
  note batch = at10 [THEN conjunct2, THEN conjunct1, THEN spec, THEN spec, THEN spec, THEN mp,
      OF ex_extract_plain]
  have len: "length [0, 1, 2 :: nat]
       = length [2, 4728779608739021 / 2251799813685248, 2476979795053773 / 1125899906842624 :: real]"
    using batch [THEN conjunct1] by simp
  have t1: "fadd 2 (offset_at (fdiv 1 10) 0 1) = 4728779608739021 / 2251799813685248"
    and t2: "fadd 2 (offset_at (fdiv 1 10) 0 2) = 2476979795053773 / 1125899906842624"
    and b2: "offset_at (fdiv 1 10) 0 2 < fsub (9 / 4) 2"
    using batch [THEN conjunct2, THEN conjunct1, THEN spec, of 1]
      batch [THEN conjunct2, THEN conjunct1, THEN spec, of 2]
    by (simp_all add: ex_segment_def)
  have stop: "\<exists>k. \<not> offset_at (fdiv 1 10) 0 k < fsub (end_time (ex_segment 2 (9 / 4))) (start_time (ex_segment 2 (9 / 4)))
            \<or> read_at (ex_env 5) (fdiv 1 10)
                 (env_VideoCapture (ex_env 5) (the (file_path (fst (snd
                    (materialize (ex_env 5) (ex_segment 2 (9 / 4)) ex_video None)))))) 0 k = None"
    using ex_plain_stop by (auto simp: ex_segment_def)
  have ret: "\<exists>r. extract_frames_for_clip (ex_env 5) (ex_segment 2 (9 / 4)) ex_video 10 None = Some r"
    using at10 [THEN conjunct2, THEN conjunct2, THEN mp, OF stop, THEN conjunct1] .
  from at0 ex_extract_plain len t1 t2 b2 ex_plain_stop ret show ?thesis
    by (intro conjI)
qed

text \<open>
  Claim C5 as it is stated fails on two counts. For a clip from 0 to 1 second at 10
  frames a second, and a decoder with frames to spare, the offsets are the rounded sums
  \<open>0.1\<close>, \<open>0.2\<close>, \<open>0.30000000000000004\<close>, ... and the one after ten additions is
  \<open>0.9999999999999999\<close>, still below the length 1: the batch has 11 frames, the last
  timestamp is not \<open>start_time + 10 / fps\<close>, and \<open>10 / fps\<close> is not below
  \<open>end_time - start_time\<close>. For a clip from \<open>2^54\<close> to \<open>2^54 + 4\<close> seconds at one frame
  a second, the first three timestamps are equal (\<open>2^54 + 1\<close> and \<open>2^54 + 2\<close> round to
  \<open>2^54\<close>), so the timestamps are not strictly increasing.
\<close>

theorem extract_frames_exact_counterexample:
  "(\<exists>fb clip' tr.
       extract_frames_for_clip (ex_env 20) (ex_segment 0 1) ex_video 10 None = Some (Inr fb, clip', tr)
     \<and> length (frames fb) = 11 \<and> length (timestamps fb) = 11
     \<and> timestamps fb ! 10 = 9007199254740991 / 9007199254740992
     \<and> timestamps fb ! 10 \<noteq> start_time (ex_segment 0 1) + 10 / 10
     \<and> \<not> 10 / 10 < end_time (ex_segment 0 1) - start_time (ex_segment 0 1))
   \<and> (\<exists>fb clip' tr.
       extract_frames_for_clip (ex_env 20) (ex_segment 18014398509481984 18014398509481988)
         ex_video 1 None = Some (Inr fb, clip', tr)
     \<and> timestamps fb = [18014398509481984, 18014398509481984, 18014398509481984, 18014398509481988]
     \<and> \<not> sorted_wrt (<) (timestamps fb))"
  unfolding ex_extract_drift ex_extract_absorbed
  by (simp add: ex_segment_def)



subsection \<open>OCR aggregator: one frame\<close>





lemmas ocr_eval = process_frame_for_ocr_def process_batch_for_ocr_def ocr_roi_def
  OCRResult_init_def roi_crop_def roi_usable_def crop_def slice_bound_def img_size_def
  candidate_text_def overall_confidence_def exact_mean_def engine_data_def
  py_strip_def is_space_def py_sum_def Let_def






text \<open>
  An overall confidence above 1 (raw confidences above 100) is outside what the theorem
  covers: there the range check of the \<open>OCRResult\<close> constructor raises.
\<close>

lemma ocr_confidence_above_range:
  "process_frame_for_ocr (\<lambda>img. engine_data [(''A'', 150)]) ex_frame 0 1 1 [ex_roi] 0.5
     = (Inl (ValueError ''OCRResult confidence must be between 0.0 and 1.0''), [roi_crop ex_frame ex_roi])"
  by (simp add: ex_frame_def ex_roi_def ocr_eval float_eval)


subsection \<open>OCR aggregator: thresholds\<close>

text \<open>
  Claim C7. For a threshold below 0 or above 1, \<open>process_frame_for_ocr\<close> and
  \<open>process_batch_for_ocr\<close> both raise the invalid-argument error, and the list of
  engine calls made is empty.
\<close>

theorem ocr_bad_threshold:
  fixes engine :: "'a sub_img \<Rightarrow> engine_result"
  assumes "thr < 0 \<or> 1 < thr"
  shows "(\<exists>msg. process_frame_for_ocr engine fr ts vid cid rois thr = (Inl (ValueError msg), []))
       \<and> (\<exists>msg. process_batch_for_ocr engine fb rois thr = (Inl (ValueError msg), []))"
  using assms by (auto simp: process_frame_for_ocr_def process_batch_for_ocr_def)

theorem ocr_bad_threshold_witness:
  "(\<exists>msg. process_frame_for_ocr (\<lambda>img. engine_data ex_tokens) ex_frame 0 1 1 [ex_roi] (- 0.1)
            = (Inl (ValueError msg), []))
   \<and> (\<exists>msg. process_batch_for_ocr (\<lambda>img. engine_data ex_tokens) ex_batch [ex_roi] 1.1
            = (Inl (ValueError msg), []))"
proof -
  have a: "(- 0.1 :: real) < 0 \<or> 1 < (- 0.1 :: real)" and b: "(1.1 :: real) < 0 \<or> 1 < (1.1 :: real)"
    by simp_all
  from ocr_bad_threshold [OF a, of "\<lambda>img. engine_data ex_tokens" ex_frame 0 1 1 "[ex_roi]" ex_batch]
    ocr_bad_threshold [OF b, of "\<lambda>img. engine_data ex_tokens" ex_frame 0 1 1 "[ex_roi]" ex_batch]
  show ?thesis by blast
qed

subsection \<open>OCR aggregator: a batch\<close>

lemma ocr_roi_ids:
  "ocr_roi engine fr ts vid cid thr roi = (Inr (Some r), cs) \<Longrightarrow>
     r_video_id r = vid \<and> r_clip_id r = cid \<and> r_timestamp r = ts"
  by (auto simp: ocr_roi_def Let_def OCRResult_init_def
           split: if_splits engine_result.splits prod.splits sum.splits)

lemma ocr_rois_ids:
  "ocr_rois engine fr ts vid cid thr rois results calls = (Inr out, cs) \<Longrightarrow>
   \<forall>r\<in>set results. r_video_id r = vid \<and> r_clip_id r = cid \<and> r_timestamp r = ts \<Longrightarrow>
   \<forall>r\<in>set out. r_video_id r = vid \<and> r_clip_id r = cid \<and> r_timestamp r = ts"
proof (induction rois arbitrary: results calls)
  case Nil
  then show ?case by simp
next
  case (Cons roi rois)
  obtain res cs1 where step: "ocr_roi engine fr ts vid cid thr roi = (res, cs1)"
    by (cases "ocr_roi engine fr ts vid cid thr roi")
  show ?case
  proof (cases res)
    case (Inl e)
    with Cons.prems(1) step show ?thesis by simp
  next
    case (Inr opt)
    show ?thesis
    proof (cases opt)
      case None
      with Inr step Cons.prems have "ocr_rois engine fr ts vid cid thr rois results (calls @ cs1) = (Inr out, cs)"
        by simp
      from Cons.IH [OF this Cons.prems(2)] show ?thesis .
    next
      case (Some r)
      with Inr step Cons.prems
      have run: "ocr_rois engine fr ts vid cid thr rois (results @ [r]) (calls @ cs1) = (Inr out, cs)"
        by simp
      have "r_video_id r = vid \<and> r_clip_id r = cid \<and> r_timestamp r = ts"
        using step Inr Some by (intro ocr_roi_ids [of engine fr ts vid cid thr roi r cs1]) simp
      with Cons.prems(2)
      have "\<forall>x\<in>set (results @ [r]). r_video_id x = vid \<and> r_clip_id x = cid \<and> r_timestamp x = ts"
        by simp
      from Cons.IH [OF run this] show ?thesis .
    qed
  qed
qed

lemma process_frame_ids:
  assumes "process_frame_for_ocr engine fr ts vid cid rois thr = (Inr out, cs)"
  shows "\<forall>r\<in>set out. r_video_id r = vid \<and> r_clip_id r = cid \<and> r_timestamp r = ts"
proof -
  from assms have "ocr_rois engine fr ts vid cid thr rois [] [] = (Inr out, cs)"
    by (simp add: process_frame_for_ocr_def split: if_splits)
  from ocr_rois_ids [OF this] show ?thesis by simp
qed

lemma batch_loop_spec:
  "(fst (batch_loop engine cid rois thr pairs acc calls) = Inr out)
     = (\<exists>dss. map (\<lambda>p. fst (process_frame_for_ocr engine (fst p) (snd p) cid cid rois thr)) pairs
                 = map Inr dss
              \<and> out = acc @ concat dss)"
proof (induction pairs arbitrary: acc calls)
  case Nil
  show ?case by auto
next
  case (Cons p pairs)
  obtain fr ts where p: "p = (fr, ts)" by (cases p)
  obtain res cs1 where step: "process_frame_for_ocr engine fr ts cid cid rois thr = (res, cs1)"
    by (cases "process_frame_for_ocr engine fr ts cid cid rois thr")
  show ?case
  proof (cases res)
    case (Inl e)
    with step p show ?thesis
      by (auto simp: map_eq_Cons_conv)
  next
    case (Inr ds)
    have "(fst (batch_loop engine cid rois thr (p # pairs) acc calls) = Inr out)
        = (fst (batch_loop engine cid rois thr pairs (acc @ ds) (calls @ cs1)) = Inr out)"
      using step p Inr by simp
    also have "\<dots> = (\<exists>dss. map (\<lambda>p. fst (process_frame_for_ocr engine (fst p) (snd p) cid cid rois thr)) pairs
                 = map Inr dss \<and> out = (acc @ ds) @ concat dss)"
      by (rule Cons.IH)
    also have "\<dots> = (\<exists>dss. map (\<lambda>p. fst (process_frame_for_ocr engine (fst p) (snd p) cid cid rois thr)) (p # pairs)
                 = map Inr dss \<and> out = acc @ concat dss)"
      (is "?L = ?R")
    proof
      assume ?L
      then obtain dss where "map (\<lambda>p. fst (process_frame_for_ocr engine (fst p) (snd p) cid cid rois thr)) pairs
                 = map Inr dss" and "out = (acc @ ds) @ concat dss"
        by blast
      then show ?R
        using step p Inr by (intro exI [of _ "ds # dss"]) simp
    next
      assume ?R
      then obtain dss where m: "map (\<lambda>p. fst (process_frame_for_ocr engine (fst p) (snd p) cid cid rois thr)) (p # pairs)
                 = map Inr dss" and o: "out = acc @ concat dss"
        by blast
      from m obtain d dss' where dss: "dss = d # dss'"
        by (cases dss) auto
      with m step p Inr have "d = ds"
        and "map (\<lambda>p. fst (process_frame_for_ocr engine (fst p) (snd p) cid cid rois thr)) pairs
                 = map Inr dss'"
        by auto
      with o dss show ?L
        by (intro exI [of _ dss']) simp
    qed
    finally show ?thesis .
  qed
qed

lemma ex_batch_run:
  "fst (process_batch_for_ocr (\<lambda>img. engine_data ex_tokens) ex_batch [ex_roi] 0.5)
     = Inr [\<lparr>r_video_id = 99, r_clip_id = 99, r_timestamp = 0.1, r_text = ''HelloWorld'',
             r_confidence = 0.875, r_roi = ex_roi\<rparr>,
            \<lparr>r_video_id = 99, r_clip_id = 99, r_timestamp = 0.2, r_text = ''HelloWorld'',
             r_confidence = 0.875, r_roi = ex_roi\<rparr>]"
  by (simp add: ex_batch_def ex_frame_def ex_roi_def ex_tokens_def ocr_eval float_eval)

text \<open>
  Claim C6. For a valid threshold, \<open>process_batch_for_ocr\<close> returns detections exactly
  when \<open>process_frame_for_ocr\<close>, applied to the (frame, timestamp) pairs of the batch
  in order with the batch's clip id as video id and as clip id, returns detections for
  every pair, and then it returns their concatenation in the order of the frames;
  every detection returned has the batch's clip id as its video id and as its clip id.
\<close>

theorem recognize_batch_spec:
  fixes engine :: "'a sub_img \<Rightarrow> engine_result" and fb :: "('a frame) FrameBatch"
    and rois :: "ROI list" and thr :: real
  defines "cid \<equiv> fb_clip_id fb"
  defines "per_frame \<equiv>
     map (\<lambda>p. fst (process_frame_for_ocr engine (fst p) (snd p) cid cid rois thr))
       (zip (frames fb) (timestamps fb))"
  assumes thr: "0 \<le> thr" "thr \<le> 1"
  shows "((fst (process_batch_for_ocr engine fb rois thr) = Inr out)
            = (\<exists>dss. per_frame = map Inr dss \<and> out = concat dss))
       \<and> (fst (process_batch_for_ocr engine fb rois thr) = Inr out \<longrightarrow>
            (\<forall>d\<in>set out. r_video_id d = cid \<and> r_clip_id d = cid))"
proof -
  have run: "process_batch_for_ocr engine fb rois thr
      = batch_loop engine cid rois thr (zip (frames fb) (timestamps fb)) [] []"
    using thr by (simp add: process_batch_for_ocr_def cid_def)
  have iff: "(fst (process_batch_for_ocr engine fb rois thr) = Inr out)
            = (\<exists>dss. per_frame = map Inr dss \<and> out = concat dss)"
    unfolding run per_frame_def batch_loop_spec by simp
  have ids: "\<forall>d\<in>set out. r_video_id d = cid \<and> r_clip_id d = cid"
    if "fst (process_batch_for_ocr engine fb rois thr) = Inr out"
  proof
    fix d assume d: "d \<in> set out"
    from that iff obtain dss where pf: "per_frame = map Inr dss" and out: "out = concat dss"
      by blast
    from d out obtain ds where ds: "ds \<in> set dss" and dds: "d \<in> set ds"
      by auto
    from ds obtain i where i: "i < length dss" and dsi: "dss ! i = ds"
      by (auto simp: in_set_conv_nth)
    have len: "length per_frame = length dss"
      using pf by simp
    let ?p = "zip (frames fb) (timestamps fb) ! i"
    have "per_frame ! i = Inr ds"
      using pf i dsi by simp
    moreover have "per_frame ! i = fst (process_frame_for_ocr engine (fst ?p) (snd ?p) cid cid rois thr)"
      using i len unfolding per_frame_def by simp
    ultimately have "fst (process_frame_for_ocr engine (fst ?p) (snd ?p) cid cid rois thr) = Inr ds"
      by simp
    then have "process_frame_for_ocr engine (fst ?p) (snd ?p) cid cid rois thr
        = (Inr ds, snd (process_frame_for_ocr engine (fst ?p) (snd ?p) cid cid rois thr))"
      by (metis prod.collapse)
    from process_frame_ids [OF this] dds show "r_video_id d = cid \<and> r_clip_id d = cid"
      by blast
  qed
  show ?thesis
    using iff ids by blast
qed

theorem recognize_batch_spec_witness:
  "fst (process_batch_for_ocr (\<lambda>img. engine_data ex_tokens) ex_batch [ex_roi] 0.5)
     = Inr [\<lparr>r_video_id = 99, r_clip_id = 99, r_timestamp = 0.1, r_text = ''HelloWorld'',
             r_confidence = 0.875, r_roi = ex_roi\<rparr>,
            \<lparr>r_video_id = 99, r_clip_id = 99, r_timestamp = 0.2, r_text = ''HelloWorld'',
             r_confidence = 0.875, r_roi = ex_roi\<rparr>]
   \<and> (\<exists>dss. map (\<lambda>p. fst (process_frame_for_ocr (\<lambda>img. engine_data ex_tokens) (fst p) (snd p)
                        99 99 [ex_roi] 0.5)) [(ex_frame, 0.1), (ex_frame, 0.2)] = map Inr dss)"
proof -
  have a: "(0::real) \<le> 0.5" "(0.5::real) \<le> 1"
    by simp_all
  from recognize_batch_spec [OF a, where engine = "\<lambda>img. engine_data ex_tokens" and fb = ex_batch
      and rois = "[ex_roi]", THEN conjunct1]
    ex_batch_run
  have "\<exists>dss. map (\<lambda>p. fst (process_frame_for_ocr (\<lambda>img. engine_data ex_tokens) (fst p) (snd p)
                        (fb_clip_id ex_batch) (fb_clip_id ex_batch) [ex_roi] 0.5))
                 (zip (frames ex_batch) (timestamps ex_batch)) = map Inr dss"
    by blast
  then have "\<exists>dss. map (\<lambda>p. fst (process_frame_for_ocr (\<lambda>img. engine_data ex_tokens) (fst p) (snd p)
                        99 99 [ex_roi] 0.5)) [(ex_frame, 0.1), (ex_frame, 0.2)] = map Inr dss"
    by (simp add: ex_batch_def)
  with ex_batch_run show ?thesis
    by blast
qed

end
